theory Spec2Isabelle
  imports Main "HOL-Library.AList" "HOL-Library.Sublist" "HOL-Library.Multiset"
begin

section \<open>Python values\<close>

text \<open>
  The values that travel through the distributed API are JSON-shaped Python values
  (\<open>None\<close>, \<open>bool\<close>, \<open>int\<close>, \<open>str\<close>, \<open>list\<close>, \<open>dict\<close>) and references to
  other Python objects (functions, bound methods, classes), which stay opaque: \<open>PObj r\<close>.
  A \<open>dict\<close> is an association list in insertion order; a Python dict has each key once,
  which the theorems below assume where it matters (\<open>distinct (map fst d)\<close>). Python
  floats are not part of this model.
\<close>

datatype pyval = PNone | PBool bool | PInt int | PStr string | PList "pyval list"
  | PDict "(string \<times> pyval) list" | PObj nat

type_synonym pydict = "(string \<times> pyval) list"

text \<open>
  The exceptions of the module: \<open>exception.WazuhException\<close> carries a numeric code and a
  message; the others are the built-in classes the code can raise, \<open>TimeoutError\<close> is
  \<open>asyncio.TimeoutError\<close>, and \<open>OtherException\<close> stands for any further subclass of
  \<open>Exception\<close> raised by a collaborator. What is raised outside \<open>Exception\<close> (a
  cancellation, the end of the interpreter) is not part of this model.
\<close>

datatype exn = WazuhException int string | TypeError | AttributeError | KeyError
  | ValueError | RuntimeError | ModuleNotFoundError | TimeoutError | OtherException string

text \<open>
  Python's \<open>==\<close> on these values: \<open>True == 1\<close> and \<open>False == 0\<close>; two dicts are equal
  when they have the same number of keys and every key of the first is in the second with
  an equal value, whatever the insertion order; two object references are equal when they
  are the same object.
\<close>

function (sequential) py_eq :: "pyval \<Rightarrow> pyval \<Rightarrow> bool"
  and py_eq_list :: "pyval list \<Rightarrow> pyval list \<Rightarrow> bool"
  and py_eq_items :: "pydict \<Rightarrow> pydict \<Rightarrow> bool"
where
  "py_eq PNone PNone = True"
| "py_eq (PBool a) (PBool b) = (a = b)"
| "py_eq (PBool a) (PInt b) = ((if a then 1 else 0) = b)"
| "py_eq (PInt a) (PBool b) = (a = (if b then 1 else 0))"
| "py_eq (PInt a) (PInt b) = (a = b)"
| "py_eq (PStr a) (PStr b) = (a = b)"
| "py_eq (PObj a) (PObj b) = (a = b)"
| "py_eq (PList xs) (PList ys) = py_eq_list xs ys"
| "py_eq (PDict xs) (PDict ys) = (length xs = length ys \<and> py_eq_items xs ys)"
| "py_eq _ _ = False"
| "py_eq_list [] [] = True"
| "py_eq_list (x # xs) (y # ys) = (py_eq x y \<and> py_eq_list xs ys)"
| "py_eq_list _ _ = False"
| "py_eq_items [] ys = True"
| "py_eq_items ((k, v) # xs) ys =
     ((case map_of ys k of None \<Rightarrow> False | Some w \<Rightarrow> py_eq v w) \<and> py_eq_items xs ys)"
  by pat_completeness auto
termination
  by (relation "measure (\<lambda>a. case a of Inl (x, _) \<Rightarrow> 2 * size x
        | Inr (Inl (xs, _)) \<Rightarrow> 2 * size (PList xs) - 1
        | Inr (Inr (xs, _)) \<Rightarrow> 2 * size (PDict xs) - 1)") auto

text \<open>\<open>x in xs\<close> for a list \<open>xs\<close>.\<close>

definition py_in_list :: "pyval \<Rightarrow> pyval list \<Rightarrow> bool" where
  "py_in_list x xs = list_ex (\<lambda>y. py_eq y x) xs"

text \<open>
  \<open>key in container\<close> for a string \<open>key\<close>: key membership in a dict, element membership
  in a list, substring test in a string, \<open>TypeError\<close> for \<open>None\<close>, a bool or an int.
\<close>

fun py_contains :: "pyval \<Rightarrow> string \<Rightarrow> exn + bool" where
  "py_contains (PDict d) key = Inr (map_of d key \<noteq> None)"
| "py_contains (PList xs) key = Inr (py_in_list (PStr key) xs)"
| "py_contains (PStr s) key = Inr (sublist key s)"
| "py_contains _ key = Inl TypeError"

text \<open>\<open>container[key]\<close> for a string \<open>key\<close>, read and write.\<close>

fun py_getitem :: "pyval \<Rightarrow> string \<Rightarrow> exn + pyval" where
  "py_getitem (PDict d) key = (case map_of d key of None \<Rightarrow> Inl KeyError | Some v \<Rightarrow> Inr v)"
| "py_getitem _ key = Inl TypeError"

fun py_setitem :: "pyval \<Rightarrow> string \<Rightarrow> pyval \<Rightarrow> exn + pyval" where
  "py_setitem (PDict d) key v = Inr (PDict (AList.update key v d))"
| "py_setitem _ key v = Inl TypeError"

text \<open>The integer an int or a bool stands for in arithmetic and comparisons.\<close>

fun py_int :: "pyval \<Rightarrow> int option" where
  "py_int (PInt n) = Some n"
| "py_int (PBool b) = Some (if b then 1 else 0)"
| "py_int _ = None"

text \<open>\<open>hash(v)\<close> succeeds on everything but a list and a dict.\<close>

fun py_hashable :: "pyval \<Rightarrow> bool" where
  "py_hashable (PList _) = False"
| "py_hashable (PDict _) = False"
| "py_hashable _ = True"

text \<open>\<open>xs[i:j]\<close> for integers \<open>i\<close>, \<open>j\<close>: a negative index counts from the end, and both
  ends are clamped to the list.\<close>

definition py_slice :: "'a list \<Rightarrow> int \<Rightarrow> int \<Rightarrow> 'a list" where
  "py_slice xs i j =
     (let n = int (length xs);
          a = (if i < 0 then max (i + n) 0 else min i n);
          b = (if j < 0 then max (j + n) 0 else min j n)
      in take (nat (b - a)) (drop (nat a) xs))"

text \<open>Truth value of a Python value in a condition.\<close>

fun py_truthy :: "pyval \<Rightarrow> bool" where
  "py_truthy PNone = False"
| "py_truthy (PBool b) = b"
| "py_truthy (PInt n) = (n \<noteq> 0)"
| "py_truthy (PStr s) = (s \<noteq> [])"
| "py_truthy (PList xs) = (xs \<noteq> [])"
| "py_truthy (PDict d) = (d \<noteq> [])"
| "py_truthy (PObj r) = True"

section \<open>Collaborators and state\<close>

text \<open>
  The cluster configuration as this module reads it: \<open>['distributed_api']['enabled']\<close> and
  \<open>['intervals']['communication']['timeout_api_request']\<close>. Time is counted in whole
  units.
\<close>

record cluster_items =
  enabled :: bool
  timeout_api_request :: nat

text \<open>
  What a call of the target function does: it returns a value or raises after some time,
  or it never finishes.
\<close>

datatype behaviour = Returns nat pyval | Raises nat exn | Hangs

text \<open>What a coroutine of this module does for its caller.\<close>

datatype 'a outcome = Returned 'a | Raised exn | NeverReturns

text \<open>
  The peer channel a request uses: the module-level \<open>local_client\<close>, the server's single
  \<open>client\<close>, or one of its named \<open>clients\<close>.
\<close>

datatype channel = LocalClient | ServerClient | NamedClient string

text \<open>
  A message handed to \<open>node.execute\<close>, before its serialisation to bytes: the node name
  that prefixes a \<open>dapi_forward\<close> message (none for \<open>dapi\<close>) and the JSON value.
\<close>

type_synonym payload = "pyval option \<times> pyval"

text \<open>The effects that leave the module, in the order they happen.\<close>

datatype event =
    Call pyval pydict
  | Execute channel string payload bool
  | SendString channel pyval
  | SendRequest channel string string string
  | LogError string

text \<open>
  The rest of the framework, as this module uses it. Every field is the result of the
  named call: \<open>cluster.get_cluster_items()\<close>, \<open>cluster.check_cluster_status()\<close> (its truth
  value), \<open>agent.Agent.get_agents_overview\<close> (the \<open>id\<close> and \<open>node_name\<close> of each of its
  \<open>items\<close>, given the \<open>id\<close> filter and the sort field), \<open>agent.Agent.get_agent\<close> (the
  \<open>node_name\<close>), the iteration order of a Python \<open>set\<close>, \<open>common.database_limit\<close>,
  \<open>utils.sort_array\<close>, calling an object with keyword arguments, \<open>node.execute\<close>,
  \<open>json.loads\<close> without a hook, the \<open>message\<close> of \<open>WazuhException(code)\<close>, \<open>str(e)\<close>,
  \<open>callable(obj)\<close>, the string attributes \<open>__name__\<close>, \<open>__module__\<close>, \<open>__qualname__\<close> of
  an object where it has them, \<open>obj.__self__.to_dict()\<close> where \<open>obj\<close> is bound to a
  \<open>Wazuh\<close> instance, \<open>type(obj).__name__\<close>, \<open>import_module\<close>, \<open>getattr\<close>,
  \<open>Wazuh(ossec_path=...)\<close>, whether \<open>server.clients\<close> has a name, \<open>node.send_string\<close>,
  \<open>node.send_request\<close>, the \<open>type\<close> and \<open>node\<close> of \<open>cluster.get_node()\<close>, and
  \<open>node.cluster_items\<close>. A collaborator answers the same call in the same way throughout
  one request; objects other than JSON values are numbered.
\<close>

record env =
  get_cluster_items :: "exn + cluster_items"
  check_cluster_status :: "exn + bool"
  get_agents_overview :: "pyval option \<Rightarrow> string \<Rightarrow> exn + (pyval \<times> string) list"
  get_agent :: "pyval \<Rightarrow> exn + string"
  set_order :: "pyval list \<Rightarrow> pyval list"
  database_limit :: int
  sort_array :: "pyval list \<Rightarrow> pyval \<Rightarrow> pyval \<Rightarrow> exn + pyval list"
  call_obj :: "nat \<Rightarrow> pydict \<Rightarrow> behaviour"
  node_execute :: "channel \<Rightarrow> string \<Rightarrow> payload \<Rightarrow> bool \<Rightarrow> exn + string"
  json_loads :: "string \<Rightarrow> exn + pyval"
  wazuh_message :: "int \<Rightarrow> string"
  exn_str :: "exn \<Rightarrow> string"
  obj_callable :: "nat \<Rightarrow> bool"
  obj_attr :: "nat \<Rightarrow> string \<Rightarrow> string option"
  obj_wazuh :: "nat \<Rightarrow> pydict option"
  obj_type :: "nat \<Rightarrow> string"
  import_module :: "pyval \<Rightarrow> exn + nat"
  obj_getattr :: "nat \<Rightarrow> string \<Rightarrow> exn + nat"
  new_wazuh :: "pyval \<Rightarrow> exn + nat"
  has_client :: "string \<Rightarrow> bool"
  send_string :: "channel \<Rightarrow> pyval \<Rightarrow> exn + string"
  send_request :: "channel \<Rightarrow> string \<Rightarrow> string \<Rightarrow> string \<Rightarrow> exn + string"
  get_node :: "string \<times> string"
  node_cluster_items :: "channel \<Rightarrow> cluster_items"

text \<open>
  The fields of a \<open>DistributedAPI\<close> object that the code reads: \<open>func\<close> is \<open>self.f\<close>,
  \<open>node_info_type\<close> and \<open>node_info_node\<close> are \<open>self.node_info['type']\<close> and
  \<open>self.node_info['node']\<close>. The logger, \<open>pretty\<close> and the random \<open>request_id\<close> have no
  effect on any result and are left out.
\<close>

record dapi =
  func :: pyval
  f_kwargs :: pydict
  node :: channel
  cluster_items :: cluster_items
  debug :: bool
  node_info_type :: string
  node_info_node :: string
  request_type :: pyval
  wait_for_complete :: bool
  from_cluster :: bool
  is_async :: bool

section \<open>Merging the responses\<close>

text \<open>The priority table of \<open>merge_results\<close>: the first component wins over the second.\<close>

definition priorities :: "(pyval \<times> pyval) list" where
  "priorities =
     [(PStr ''Some agents were not restarted'', PStr ''All selected agents were restarted'')]"

text \<open>
  Lines 287 to 299: when \<open>final_json['data']['items']\<close> is a list, default \<open>offset\<close> and
  \<open>limit\<close> in \<open>self.f_kwargs\<close>, sort when \<open>sort\<close> is given, and slice. The functions of
  this section return \<open>self.f_kwargs\<close> as they leave it, and \<open>final_json\<close> or the
  exception raised.
\<close>

definition data_items :: "pyval \<Rightarrow> exn + pyval list option" where
  "data_items fin =
     (case py_contains fin ''data'' of Inl e \<Rightarrow> Inl e
      | Inr False \<Rightarrow> Inr None
      | Inr True \<Rightarrow>
        (case py_getitem fin ''data'' of Inl e \<Rightarrow> Inl e
         | Inr dat \<Rightarrow>
           (case py_contains dat ''items'' of Inl e \<Rightarrow> Inl e
            | Inr False \<Rightarrow> Inr None
            | Inr True \<Rightarrow>
              (case py_getitem dat ''items'' of Inl e \<Rightarrow> Inl e
               | Inr (PList xs) \<Rightarrow> Inr (Some xs)
               | Inr _ \<Rightarrow> Inr None))))"

definition default_offset :: "pydict \<Rightarrow> pydict" where
  "default_offset kw =
     (if map_of kw ''offset'' = None then AList.update ''offset'' (PInt 0) kw else kw)"

definition default_limit :: "env \<Rightarrow> pydict \<Rightarrow> pydict" where
  "default_limit env kw =
     (if map_of kw ''limit'' = None
      then AList.update ''limit'' (PInt (database_limit env)) kw else kw)"

definition sort_items :: "env \<Rightarrow> pydict \<Rightarrow> pyval list \<Rightarrow> exn + pyval list" where
  "sort_items env kw xs =
     (case map_of kw ''sort'' of None \<Rightarrow> Inr xs
      | Some s \<Rightarrow>
        (case py_getitem s ''fields'' of Inl e \<Rightarrow> Inl e
         | Inr sort_by \<Rightarrow>
           (case py_getitem s ''order'' of Inl e \<Rightarrow> Inl e
            | Inr sort_order \<Rightarrow> sort_array env xs sort_by sort_order)))"

definition slice_items :: "pydict \<Rightarrow> pyval list \<Rightarrow> exn + pyval list" where
  "slice_items kw xs =
     (case (map_of kw ''offset'', map_of kw ''limit'') of
        (Some off, Some lim) \<Rightarrow>
          (case (py_int off, py_int lim) of
             (Some i, Some l) \<Rightarrow> Inr (py_slice xs i (i + l))
           | _ \<Rightarrow> Inl TypeError)
      | _ \<Rightarrow> Inl KeyError)"

definition set_data_items :: "pyval \<Rightarrow> pyval list \<Rightarrow> exn + pyval" where
  "set_data_items fin xs =
     (case py_getitem fin ''data'' of Inl e \<Rightarrow> Inl e
      | Inr dat \<Rightarrow>
        (case py_setitem dat ''items'' (PList xs) of Inl e \<Rightarrow> Inl e
         | Inr dat' \<Rightarrow> py_setitem fin ''data'' dat'))"

definition paginate :: "env \<Rightarrow> pydict \<Rightarrow> pyval \<Rightarrow> pydict \<times> (exn + pyval)" where
  "paginate env kw fin =
     (case data_items fin of Inl e \<Rightarrow> (kw, Inl e)
      | Inr None \<Rightarrow> (kw, Inr fin)
      | Inr (Some xs) \<Rightarrow>
        (let kw' = default_limit env (default_offset kw) in
         (kw', case sort_items env kw' xs of Inl e \<Rightarrow> Inl e
               | Inr sorted_xs \<Rightarrow>
                 (case slice_items kw' sorted_xs of Inl e \<Rightarrow> Inl e
                  | Inr page \<Rightarrow> set_data_items fin page))))"

text \<open>Lines 267 to 271: a list field.\<close>

definition merge_list :: "pyval \<Rightarrow> string \<Rightarrow> pyval list \<Rightarrow> exn + pyval" where
  "merge_list fin key field =
     (case py_contains fin key of Inl e \<Rightarrow> Inl e
      | Inr True \<Rightarrow>
        (case py_getitem fin key of Inl e \<Rightarrow> Inl e
         | Inr (PList cur) \<Rightarrow>
             py_setitem fin key (PList (cur @ filter (\<lambda>elem. \<not> py_in_list elem cur) field))
         | Inr _ \<Rightarrow> Inl AttributeError)
      | Inr False \<Rightarrow> py_setitem fin key (PList field))"

text \<open>Lines 272 to 279: an int field.\<close>

definition merge_int :: "pyval \<Rightarrow> string \<Rightarrow> int \<Rightarrow> exn + pyval" where
  "merge_int fin key field =
     (case py_contains fin key of Inl e \<Rightarrow> Inl e
      | Inr True \<Rightarrow>
        (if key = ''totalItems''
         then (case py_getitem fin key of Inl e \<Rightarrow> Inl e
               | Inr cur \<Rightarrow>
                 (case py_int cur of None \<Rightarrow> Inl TypeError
                  | Some a \<Rightarrow> py_setitem fin key (PInt (a + field))))
         else if key = ''error''
         then (case py_getitem fin key of Inl e \<Rightarrow> Inl e
               | Inr cur \<Rightarrow>
                 (case py_int cur of None \<Rightarrow> Inl TypeError
                  | Some a \<Rightarrow> if a < field then py_setitem fin key (PInt field) else Inr fin))
         else Inr fin)
      | Inr False \<Rightarrow> py_setitem fin key (PInt field))"

text \<open>Lines 280 to 285: any other field (a string, a bool, \<open>None\<close>, an object).\<close>

definition merge_other :: "pyval \<Rightarrow> string \<Rightarrow> pyval \<Rightarrow> exn + pyval" where
  "merge_other fin key field =
     (case py_contains fin key of Inl e \<Rightarrow> Inl e
      | Inr True \<Rightarrow>
        (case py_getitem fin key of Inl e \<Rightarrow> Inl e
         | Inr cur \<Rightarrow>
             if \<not> py_hashable cur then Inl TypeError
             else if (field, cur) \<in> set priorities then py_setitem fin key field
             else Inr fin)
      | Inr False \<Rightarrow> py_setitem fin key field)"

text \<open>
  \<open>merge_results(responses, final_json)\<close>: \<open>merge_local\<close> is the inner loop over
  \<open>local_json.items()\<close>, \<open>merge_results\<close> the outer loop over \<open>responses\<close> followed by the
  pagination step. A dict field re-enters \<open>merge_results\<close> with the one response
  \<open>[field]\<close>, so the pagination step also runs at every nested level. A response that is
  not a dict has no \<open>items()\<close>.
\<close>

function (sequential)
  merge_results :: "env \<Rightarrow> pydict \<Rightarrow> pyval list \<Rightarrow> pyval \<Rightarrow> pydict \<times> (exn + pyval)"
  and merge_local :: "env \<Rightarrow> pydict \<Rightarrow> pydict \<Rightarrow> pyval \<Rightarrow> pydict \<times> (exn + pyval)"
where
  "merge_results env kw [] fin = paginate env kw fin"
| "merge_results env kw (PDict local_json # responses) fin =
     (case merge_local env kw local_json fin of (kw', Inl e) \<Rightarrow> (kw', Inl e)
      | (kw', Inr fin') \<Rightarrow> merge_results env kw' responses fin')"
| "merge_results env kw (_ # responses) fin = (kw, Inl AttributeError)"
| "merge_local env kw [] fin = (kw, Inr fin)"
| "merge_local env kw ((key, PDict field) # rest) fin =
     (case py_contains fin key of Inl e \<Rightarrow> (kw, Inl e)
      | Inr present \<Rightarrow>
        (case (if present then py_getitem fin key else Inr (PDict [])) of
           Inl e \<Rightarrow> (kw, Inl e)
         | Inr acc \<Rightarrow>
           (case merge_results env kw [PDict field] acc of (kw', Inl e) \<Rightarrow> (kw', Inl e)
            | (kw', Inr sub) \<Rightarrow>
              (case py_setitem fin key sub of Inl e \<Rightarrow> (kw', Inl e)
               | Inr fin' \<Rightarrow> merge_local env kw' rest fin'))))"
| "merge_local env kw ((key, PList field) # rest) fin =
     (case merge_list fin key field of Inl e \<Rightarrow> (kw, Inl e)
      | Inr fin' \<Rightarrow> merge_local env kw rest fin')"
| "merge_local env kw ((key, PInt field) # rest) fin =
     (case merge_int fin key field of Inl e \<Rightarrow> (kw, Inl e)
      | Inr fin' \<Rightarrow> merge_local env kw rest fin')"
| "merge_local env kw ((key, field) # rest) fin =
     (case merge_other fin key field of Inl e \<Rightarrow> (kw, Inl e)
      | Inr fin' \<Rightarrow> merge_local env kw rest fin')"
  by pat_completeness auto
termination
  by (relation "measure (\<lambda>a. case a of Inl (_, _, rs, _) \<Rightarrow> size (PList rs)
        | Inr (_, _, items, _) \<Rightarrow> size (PDict items))") auto

text \<open>
  Lines 262 to 285 alone: the two loops of \<open>merge_results\<close> without the pagination step
  that follows them.
\<close>

fun merge_all :: "env \<Rightarrow> pydict \<Rightarrow> pyval list \<Rightarrow> pyval \<Rightarrow> pydict \<times> (exn + pyval)" where
  "merge_all env kw [] fin = (kw, Inr fin)"
| "merge_all env kw (PDict local_json # responses) fin =
     (case merge_local env kw local_json fin of (kw', Inl e) \<Rightarrow> (kw', Inl e)
      | (kw', Inr fin') \<Rightarrow> merge_all env kw' responses fin')"
| "merge_all env kw (_ # responses) fin = (kw, Inl AttributeError)"

section \<open>The solver nodes of a request\<close>

text \<open>
  \<open>itertools.groupby\<close>: the runs of consecutive elements with the same key, in order.
\<close>

function groupby :: "('a \<Rightarrow> 'k) \<Rightarrow> 'a list \<Rightarrow> ('k \<times> 'a list) list" where
  "groupby key [] = []"
| "groupby key (x # xs) =
     (key x, x # takeWhile (\<lambda>y. key y = key x) xs)
       # groupby key (dropWhile (\<lambda>y. key y = key x) xs)"
  by pat_completeness auto
termination
  by (relation "measure (\<lambda>(key, xs). length xs)") (auto simp: less_Suc_eq_le length_dropWhile_le)

text \<open>A dict comprehension: a later pair with the same key replaces the earlier value.\<close>

definition dict_of :: "('k \<times> 'v) list \<Rightarrow> ('k \<times> 'v) list" where
  "dict_of ps = foldl (\<lambda>d (k, v). AList.update k v d) [] ps"

text \<open>The elements of \<open>set(xs)\<close>, each once, the first of several equal ones kept.\<close>

fun py_dedup :: "pyval list \<Rightarrow> pyval list" where
  "py_dedup [] = []"
| "py_dedup (x # xs) = x # py_dedup (filter (\<lambda>y. \<not> py_eq y x) xs)"

text \<open>
  \<open>list(set(xs) - set(ys))\<close>: \<open>TypeError\<close> when an element cannot be hashed; the
  resulting order is the set's iteration order.
\<close>

definition set_difference :: "env \<Rightarrow> pyval list \<Rightarrow> pyval list \<Rightarrow> exn + pyval list" where
  "set_difference env xs ys =
     (if list_all py_hashable xs \<and> list_all py_hashable ys
      then Inr (set_order env (py_dedup (filter (\<lambda>x. \<not> py_in_list x ys) xs)))
      else Inl TypeError)"

text \<open>
  The solver map is a dict from node name to the list of agent ids. The function
  deletes \<open>node_id\<close> from \<open>self.f_kwargs\<close> in its third branch, so it returns the object
  as it leaves it.
\<close>

type_synonym solver_map = "(pyval \<times> pyval list) list"

definition get_solver_node :: "env \<Rightarrow> dapi \<Rightarrow> dapi \<times> (exn + solver_map)" where
  "get_solver_node env st =
     (case map_of (f_kwargs st) ''agent_id'' of
        Some (PList ids) \<Rightarrow>
          (st, case get_agents_overview env (Some (PList ids)) ''node'' of Inl e \<Rightarrow> Inl e
               | Inr agents \<Rightarrow>
                 (let node_name =
                        dict_of (map (\<lambda>(k, g). (PStr k, map fst g)) (groupby snd agents))
                  in case set_difference env ids (map fst agents) of Inl e \<Rightarrow> Inl e
                     | Inr non_existent_ids \<Rightarrow>
                         if non_existent_ids \<noteq> []
                         then (case map_of node_name (PStr (node_info_node st)) of
                                 Some cur \<Rightarrow>
                                   Inr (AList.update (PStr (node_info_node st))
                                          (cur @ non_existent_ids) node_name)
                               | None \<Rightarrow>
                                   Inr (AList.update (PStr (node_info_node st))
                                          non_existent_ids node_name))
                         else Inr node_name))
      | Some agent_id \<Rightarrow>
          (st, case get_agent env agent_id of Inl e \<Rightarrow> Inl e
               | Inr node_name \<Rightarrow> Inr [(PStr node_name, [agent_id])])
      | None \<Rightarrow>
          (case map_of (f_kwargs st) ''node_id'' of
             Some node_id \<Rightarrow>
               (st\<lparr>f_kwargs := AList.delete ''node_id'' (f_kwargs st)\<rparr>,
                if py_hashable node_id then Inr [(node_id, [])] else Inl TypeError)
           | None \<Rightarrow>
               (st, case get_agents_overview env None ''node_name'' of Inl e \<Rightarrow> Inl e
                    | Inr agents \<Rightarrow>
                        Inr (dict_of (map (\<lambda>(k, g). (PStr k, [])) (groupby snd agents))))))"

section \<open>Serialising the request\<close>

text \<open>\<open>DistributedAPI.to_dict\<close>.\<close>

definition to_dict :: "dapi \<Rightarrow> pyval" where
  "to_dict st = PDict
     [(''f'', func st),
      (''f_kwargs'', PDict (f_kwargs st)),
      (''request_type'', request_type st),
      (''wait_for_complete'', PBool (wait_for_complete st)),
      (''from_cluster'', PBool (from_cluster st)),
      (''is_async'', PBool (is_async st))]"

text \<open>
  \<open>CallableEncoder.default\<close>: the dict that stands for a callable object; any other object
  is left to \<open>json.JSONEncoder.default\<close>, which raises \<open>TypeError\<close>.
\<close>

definition attr_entry :: "env \<Rightarrow> nat \<Rightarrow> string \<Rightarrow> pydict" where
  "attr_entry env r a = (case obj_attr env r a of None \<Rightarrow> [] | Some s \<Rightarrow> [(a, PStr s)])"

definition encoder_default :: "env \<Rightarrow> nat \<Rightarrow> exn + pyval" where
  "encoder_default env r =
     (if obj_callable env r
      then Inr (PDict [(''__callable__'', PDict
             (attr_entry env r ''__name__'' @ attr_entry env r ''__module__''
              @ attr_entry env r ''__qualname__''
              @ (case obj_wazuh env r of None \<Rightarrow> [] | Some w \<Rightarrow> [(''__wazuh__'', PDict w)])
              @ [(''__type__'', PStr (obj_type env r))]))])
      else Inl TypeError)"

text \<open>
  \<open>json.dumps(v, cls=CallableEncoder)\<close> up to the text of the result: the JSON value that
  is written, every object replaced by what the encoder gives for it.
\<close>

function (sequential) encode :: "env \<Rightarrow> pyval \<Rightarrow> exn + pyval"
  and encode_list :: "env \<Rightarrow> pyval list \<Rightarrow> exn + pyval list"
  and encode_items :: "env \<Rightarrow> pydict \<Rightarrow> exn + pydict"
where
  "encode env (PObj r) = encoder_default env r"
| "encode env (PList xs) =
     (case encode_list env xs of Inl e \<Rightarrow> Inl e | Inr ys \<Rightarrow> Inr (PList ys))"
| "encode env (PDict d) =
     (case encode_items env d of Inl e \<Rightarrow> Inl e | Inr d' \<Rightarrow> Inr (PDict d'))"
| "encode env v = Inr v"
| "encode_list env [] = Inr []"
| "encode_list env (x # xs) =
     (case encode env x of Inl e \<Rightarrow> Inl e
      | Inr y \<Rightarrow> (case encode_list env xs of Inl e \<Rightarrow> Inl e | Inr ys \<Rightarrow> Inr (y # ys)))"
| "encode_items env [] = Inr []"
| "encode_items env ((k, x) # d) =
     (case encode env x of Inl e \<Rightarrow> Inl e
      | Inr y \<Rightarrow> (case encode_items env d of Inl e \<Rightarrow> Inl e | Inr d' \<Rightarrow> Inr ((k, y) # d')))"
  by pat_completeness auto
termination
  by (relation "measure (\<lambda>a. case a of Inl (_, x) \<Rightarrow> 2 * size x
        | Inr (Inl (_, xs)) \<Rightarrow> 2 * size (PList xs) - 1
        | Inr (Inr (_, d)) \<Rightarrow> 2 * size (PDict d) - 1)") auto

section \<open>Local and remote execution\<close>

text \<open>\<open>print_json\<close>: the response envelope.\<close>

definition print_json :: "pyval \<Rightarrow> int \<Rightarrow> pyval" where
  "print_json data error =
     PDict [(if error \<noteq> 0 then ''message'' else ''data'', data), (''error'', PInt error)]"

text \<open>
  \<open>asyncio.wait_for(task, timeout)\<close>: with no timeout the task's own end, if it has one;
  with a timeout, \<open>asyncio.TimeoutError\<close> when the task is not finished in time.
\<close>

definition wait_for :: "behaviour \<Rightarrow> nat option \<Rightarrow> pyval outcome" where
  "wait_for task timeout =
     (case task of
        Returns d v \<Rightarrow>
          (case timeout of None \<Rightarrow> Returned v
           | Some t \<Rightarrow> if d \<le> t then Returned v else Raised TimeoutError)
      | Raises d e \<Rightarrow>
          (case timeout of None \<Rightarrow> Raised e
           | Some t \<Rightarrow> if d \<le> t then Raised e else Raised TimeoutError)
      | Hangs \<Rightarrow> (case timeout of None \<Rightarrow> NeverReturns | Some t \<Rightarrow> Raised TimeoutError))"

text \<open>
  \<open>run_local\<close>: \<open>self.f(**self.f_kwargs)\<close>. Whether it runs as a coroutine (\<open>is_async\<close>) or
  in the executor, the caller sees the same behaviour; calling something that is not an
  object raises \<open>TypeError\<close> at once.
\<close>

definition run_local :: "env \<Rightarrow> dapi \<Rightarrow> behaviour" where
  "run_local env st =
     (case func st of PObj r \<Rightarrow> call_obj env r (f_kwargs st) | _ \<Rightarrow> Raises 0 TypeError)"

definition execute_local_request :: "env \<Rightarrow> dapi \<Rightarrow> pyval outcome \<times> event list" where
  "execute_local_request env st =
     (let timeout = (if wait_for_complete st then None
                     else Some (timeout_api_request (cluster_items st)));
          task = run_local env st;
          awaited = (case wait_for task timeout of
                       Raised TimeoutError \<Rightarrow>
                         Raised (WazuhException 3021 (wazuh_message env 3021))
                     | r \<Rightarrow> r)
      in case awaited of
           Returned data \<Rightarrow> (Returned (print_json data 0), [Call (func st) (f_kwargs st)])
         | Raised (WazuhException code message) \<Rightarrow>
             (if debug st then Raised (WazuhException code message)
              else Returned (print_json (PStr message) code),
              [Call (func st) (f_kwargs st)])
         | Raised e \<Rightarrow>
             (if debug st then Raised e else Returned (print_json (PStr (exn_str env e)) 1000),
              [Call (func st) (f_kwargs st),
               LogError (''Error executing API request locally: '' @ exn_str env e)])
         | NeverReturns \<Rightarrow> (NeverReturns, [Call (func st) (f_kwargs st)]))"

definition execute_remote_request :: "env \<Rightarrow> dapi \<Rightarrow> pyval outcome \<times> event list" where
  "execute_remote_request env st =
     (case encode env (to_dict st) of Inl e \<Rightarrow> (Raised e, [])
      | Inr data \<Rightarrow>
          (case node_execute env (node st) ''dapi'' (None, data) (wait_for_complete st) of
             Inl e \<Rightarrow> Raised e | Inr reply \<Rightarrow> Returned (PStr reply),
           [Execute (node st) ''dapi'' (None, data) (wait_for_complete st)]))"

section \<open>Routing and forwarding\<close>

text \<open>
  Lines 55 to 77: which of the three branches runs. \<open>check_cluster_status\<close> is only
  called when the distributed API is enabled, and either read may raise.
\<close>

datatype branch = Local | Forward | Remote

definition routing :: "env \<Rightarrow> dapi \<Rightarrow> exn + branch" where
  "routing env st =
     (case get_cluster_items env of Inl e \<Rightarrow> Inl e
      | Inr items \<Rightarrow>
        (let is_dapi_enabled = enabled items in
         if \<not> is_dapi_enabled then Inr Local
         else (case check_cluster_status env of Inl e \<Rightarrow> Inl e
               | Inr status \<Rightarrow>
                 if status \<or> request_type st = PStr ''local_any''
                    \<or> (request_type st = PStr ''local_master''
                        \<and> node_info_type st = ''master'')
                    \<or> (request_type st = PStr ''distributed_master'' \<and> from_cluster st)
                 then Inr Local
                 else if request_type st = PStr ''distributed_master''
                         \<and> node_info_type st = ''master''
                 then Inr Forward
                 else Inr Remote)))"

text \<open>Lines 78 to 85: the two \<open>except\<close> clauses of \<open>distribute_function\<close>.\<close>

definition handle_exceptions :: "env \<Rightarrow> dapi \<Rightarrow> pyval outcome \<Rightarrow> pyval outcome" where
  "handle_exceptions env st r =
     (case r of
        Raised (WazuhException code message) \<Rightarrow>
          if debug st then Raised (WazuhException code message)
          else Returned (print_json (PStr message) code)
      | Raised e \<Rightarrow>
          if debug st then Raised e else Returned (print_json (PStr (exn_str env e)) 1000)
      | _ \<Rightarrow> r)"

text \<open>
  \<open>asyncio.gather\<close> over the sub-calls: the first exception, else the list of results when
  every sub-call returned. The sub-calls are taken in the order of the solver map; how
  the event loop interleaves them is not part of this model.
\<close>

fun gather :: "pyval outcome list \<Rightarrow> pyval list outcome" where
  "gather [] = Returned []"
| "gather (Raised e # rs) = Raised e"
| "gather (Returned v # rs) =
     (case gather rs of Returned vs \<Rightarrow> Returned (v # vs) | Raised e \<Rightarrow> Raised e
      | NeverReturns \<Rightarrow> NeverReturns)"
| "gather (NeverReturns # rs) =
     (case gather rs of Raised e \<Rightarrow> Raised e | _ \<Rightarrow> NeverReturns)"

text \<open>
  The end of \<open>forward_request\<close> for several nodes, lines 191 to 193: the gathered
  results are merged into an empty \<open>final_json\<close>.
\<close>

definition merge_gathered ::
  "env \<Rightarrow> pyval outcome list \<times> dapi \<times> event list \<Rightarrow> pyval outcome \<times> dapi \<times> event list" where
  "merge_gathered env g =
     (case g of (rs, st, evs) \<Rightarrow>
        (case gather rs of
           Returned results \<Rightarrow>
             (case merge_results env (f_kwargs st) results (PDict []) of
                (kw, Inl e) \<Rightarrow> (Raised e, st\<lparr>f_kwargs := kw\<rparr>, evs)
              | (kw, Inr response) \<Rightarrow> (Returned response, st\<lparr>f_kwargs := kw\<rparr>, evs))
         | Raised e \<Rightarrow> (Raised e, st, evs)
         | NeverReturns \<Rightarrow> (NeverReturns, st, evs)))"

text \<open>
  The inner function \<open>forward\<close>, lines 171 to 185, in three parts: the write to
  \<open>self.f_kwargs['agent_id']\<close>, the test for a local execution, and the message to
  another node with the decoding of its reply.
\<close>

definition inject_agent_id :: "dapi \<Rightarrow> pyval list \<Rightarrow> dapi" where
  "inject_agent_id st agent_id =
     (if agent_id \<noteq> []
         \<and> (case map_of (f_kwargs st) ''agent_id'' of None \<Rightarrow> True
             | Some (PList _) \<Rightarrow> True | Some _ \<Rightarrow> False)
      then st\<lparr>f_kwargs := AList.update ''agent_id'' (PList agent_id) (f_kwargs st)\<rparr>
      else st)"

definition executes_locally :: "dapi \<Rightarrow> pyval \<Rightarrow> bool" where
  "executes_locally st node_name =
     (node_name = PStr ''unknown'' \<or> node_name = PStr []
      \<or> node_name = PStr (node_info_node st))"

definition forward_remote :: "env \<Rightarrow> dapi \<Rightarrow> pyval \<Rightarrow> pyval outcome \<times> dapi \<times> event list" where
  "forward_remote env st node_name =
     (case encode env (to_dict st) of Inl e \<Rightarrow> (Raised e, st, [])
      | Inr data \<Rightarrow>
          (case node_execute env (node st) ''dapi_forward'' (Some node_name, data)
                  (wait_for_complete st) of
             Inl e \<Rightarrow> Raised e
           | Inr reply \<Rightarrow>
               (case json_loads env reply of Inl e \<Rightarrow> Raised e
                | Inr response \<Rightarrow> Returned response),
           st,
           [Execute (node st) ''dapi_forward'' (Some node_name, data) (wait_for_complete st)]))"

text \<open>
  The \<open>except\<close> clauses applied to what the \<open>try\<close> body of \<open>distribute_function\<close> did on
  the object \<open>st\<close>.
\<close>

definition handled :: "env \<Rightarrow> dapi \<Rightarrow> pyval outcome \<times> event list
                         \<Rightarrow> pyval outcome \<times> dapi \<times> event list" where
  "handled env st r = (handle_exceptions env st (fst r), st, snd r)"

text \<open>
  \<open>distribute_function\<close>, \<open>forward_request\<close>, its inner function \<open>forward\<close> and the list of
  sub-calls handed to \<open>asyncio.gather\<close> (\<open>forward_each\<close>). Each returns what the caller
  sees, the object as it leaves it, and the events. \<open>forward\<close> re-enters
  \<open>distribute_function\<close>; the first argument bounds the depth of that recursion, and the
  result is \<open>None\<close> when the bound is reached. \<open>forward_request\<close> sets \<open>from_cluster\<close>
  after \<open>get_solver_node\<close> returned and before any sub-call; with one node or none it
  takes \<open>next(iter(nodes.items()))\<close>, which in a coroutine raises \<open>RuntimeError\<close> on an
  empty dict.
\<close>

fun distribute_function :: "nat \<Rightarrow> env \<Rightarrow> dapi \<Rightarrow> (pyval outcome \<times> dapi \<times> event list) option"
  and forward_request :: "nat \<Rightarrow> env \<Rightarrow> dapi \<Rightarrow> (pyval outcome \<times> dapi \<times> event list) option"
  and forward :: "nat \<Rightarrow> env \<Rightarrow> dapi \<Rightarrow> pyval \<times> pyval list
                    \<Rightarrow> (pyval outcome \<times> dapi \<times> event list) option"
  and forward_each :: "nat \<Rightarrow> env \<Rightarrow> dapi \<Rightarrow> solver_map
                    \<Rightarrow> (pyval outcome list \<times> dapi \<times> event list) option"
where
  "distribute_function 0 env st = None"
| "distribute_function (Suc n) env st =
     (case routing env st of
        Inl e \<Rightarrow> Some (handled env st (Raised e, []))
      | Inr Local \<Rightarrow> Some (handled env st (execute_local_request env st))
      | Inr Forward \<Rightarrow>
          (case forward_request n env st of None \<Rightarrow> None
           | Some (r, st', evs) \<Rightarrow> Some (handled env st' (r, evs)))
      | Inr Remote \<Rightarrow> Some (handled env st (execute_remote_request env st)))"
| "forward_request n env st =
     (case snd (get_solver_node env st) of
        Inl e \<Rightarrow> Some (Raised e, fst (get_solver_node env st), [])
      | Inr nodes \<Rightarrow>
          if length nodes > 1
          then (case forward_each n env
                       ((fst (get_solver_node env st))\<lparr>from_cluster := True\<rparr>) nodes of
                  None \<Rightarrow> None
                | Some g \<Rightarrow> Some (merge_gathered env g))
          else (case nodes of
                  [] \<Rightarrow> Some (Raised RuntimeError,
                              (fst (get_solver_node env st))\<lparr>from_cluster := True\<rparr>, [])
                | entry # _ \<Rightarrow>
                    forward n env ((fst (get_solver_node env st))\<lparr>from_cluster := True\<rparr>)
                      entry))"
| "forward n env st (node_name, agent_id) =
     (if executes_locally (inject_agent_id st agent_id) node_name
      then distribute_function n env (inject_agent_id st agent_id)
      else Some (forward_remote env (inject_agent_id st agent_id) node_name))"
| "forward_each n env st [] = Some ([], st, [])"
| "forward_each n env st (entry # entries) =
     (case forward n env st entry of None \<Rightarrow> None
      | Some (r, st1, evs1) \<Rightarrow>
          (case forward_each n env st1 entries of None \<Rightarrow> None
           | Some (rs, st2, evs2) \<Rightarrow> Some (r # rs, st2, evs1 @ evs2)))"

text \<open>
  Lines 55 to 77 alone: what the \<open>try\<close> body of \<open>distribute_function\<close> does before any
  \<open>except\<close> clause applies.
\<close>

definition try_body :: "nat \<Rightarrow> env \<Rightarrow> dapi \<Rightarrow> (pyval outcome \<times> dapi \<times> event list) option" where
  "try_body n env st =
     (case routing env st of
        Inl e \<Rightarrow> Some (Raised e, st, [])
      | Inr Local \<Rightarrow>
          Some (fst (execute_local_request env st), st, snd (execute_local_request env st))
      | Inr Forward \<Rightarrow> forward_request n env st
      | Inr Remote \<Rightarrow>
          Some (fst (execute_remote_request env st), st, snd (execute_remote_request env st)))"

section \<open>Decoding a request\<close>

text \<open>\<open>s.split(sep)\<close> and \<open>s.split(sep, 1)\<close> for a one-character separator.\<close>

fun split_on :: "char \<Rightarrow> string \<Rightarrow> string list" where
  "split_on c [] = [[]]"
| "split_on c (x # xs) =
     (if x = c then [] # split_on c xs
      else (case split_on c xs of [] \<Rightarrow> [[x]] | w # ws \<Rightarrow> (x # w) # ws))"

definition split_once :: "char \<Rightarrow> string \<Rightarrow> string list" where
  "split_once c s =
     (if c \<in> set s then [takeWhile (\<lambda>x. x \<noteq> c) s, tl (dropWhile (\<lambda>x. x \<noteq> c) s)] else [s])"

text \<open>\<open>getattr(obj, name)\<close>: the attribute name must be a string.\<close>

definition py_getattr :: "env \<Rightarrow> nat \<Rightarrow> pyval \<Rightarrow> exn + pyval" where
  "py_getattr env r name =
     (case name of
        PStr s \<Rightarrow> (case obj_getattr env r s of Inl e \<Rightarrow> Inl e | Inr a \<Rightarrow> Inr (PObj a))
      | _ \<Rightarrow> Inl TypeError)"

text \<open>
  The \<open>try\<close> body of \<open>as_callable\<close> once \<open>'__callable__'\<close> is found, lines 372 to 388.
  \<open>wazuh_dict.get\<close> and \<open>.split\<close> raise \<open>AttributeError\<close> on a value that has no such
  method.
\<close>

definition resolve_callable :: "env \<Rightarrow> pyval \<Rightarrow> exn + pyval" where
  "resolve_callable env encoded_callable =
     (case py_getitem encoded_callable ''__name__'' of Inl e \<Rightarrow> Inl e
      | Inr funcname \<Rightarrow>
        (case py_contains encoded_callable ''__wazuh__'' of Inl e \<Rightarrow> Inl e
         | Inr True \<Rightarrow>
           (case py_getitem encoded_callable ''__wazuh__'' of Inl e \<Rightarrow> Inl e
            | Inr (PDict wazuh_dict) \<Rightarrow>
                (case new_wazuh env (case map_of wazuh_dict ''path'' of
                                       None \<Rightarrow> PStr ''/var/ossec'' | Some p \<Rightarrow> p) of
                   Inl e \<Rightarrow> Inl e
                 | Inr wazuh \<Rightarrow> py_getattr env wazuh funcname)
            | Inr _ \<Rightarrow> Inl AttributeError)
         | Inr False \<Rightarrow>
           (case py_getitem encoded_callable ''__qualname__'' of Inl e \<Rightarrow> Inl e
            | Inr (PStr q) \<Rightarrow>
                (let qualname = split_on (CHR ''.'') q;
                     classname = (if length qualname > 1 then Some (hd qualname) else None)
                 in case py_getitem encoded_callable ''__module__'' of Inl e \<Rightarrow> Inl e
                    | Inr module_path \<Rightarrow>
                      (case import_module env module_path of Inl e \<Rightarrow> Inl e
                       | Inr module \<Rightarrow>
                         (case classname of
                            None \<Rightarrow> py_getattr env module funcname
                          | Some c \<Rightarrow>
                              (case obj_getattr env module c of Inl e \<Rightarrow> Inl e
                               | Inr cls \<Rightarrow> py_getattr env cls funcname))))
            | Inr _ \<Rightarrow> Inl AttributeError)))"

text \<open>
  \<open>as_callable(dct)\<close>: a dict without \<open>'__callable__'\<close> is returned as it is; \<open>KeyError\<close>
  and \<open>AttributeError\<close> become \<open>TypeError\<close>, any other exception passes.
\<close>

definition as_callable :: "env \<Rightarrow> pydict \<Rightarrow> exn + pyval" where
  "as_callable env dct =
     (case map_of dct ''__callable__'' of None \<Rightarrow> Inr (PDict dct)
      | Some encoded_callable \<Rightarrow>
          (case resolve_callable env encoded_callable of
             Inl KeyError \<Rightarrow> Inl TypeError
           | Inl AttributeError \<Rightarrow> Inl TypeError
           | r \<Rightarrow> r))"

text \<open>
  \<open>json.loads(request, object_hook=as_callable)\<close> after the parsing proper: the hook is
  applied to every dict, the inner ones first.
\<close>

function (sequential) object_hook :: "env \<Rightarrow> pyval \<Rightarrow> exn + pyval"
  and object_hook_list :: "env \<Rightarrow> pyval list \<Rightarrow> exn + pyval list"
  and object_hook_items :: "env \<Rightarrow> pydict \<Rightarrow> exn + pydict"
where
  "object_hook env (PDict d) =
     (case object_hook_items env d of Inl e \<Rightarrow> Inl e | Inr d' \<Rightarrow> as_callable env d')"
| "object_hook env (PList xs) =
     (case object_hook_list env xs of Inl e \<Rightarrow> Inl e | Inr ys \<Rightarrow> Inr (PList ys))"
| "object_hook env v = Inr v"
| "object_hook_list env [] = Inr []"
| "object_hook_list env (x # xs) =
     (case object_hook env x of Inl e \<Rightarrow> Inl e
      | Inr y \<Rightarrow> (case object_hook_list env xs of Inl e \<Rightarrow> Inl e | Inr ys \<Rightarrow> Inr (y # ys)))"
| "object_hook_items env [] = Inr []"
| "object_hook_items env ((k, x) # d) =
     (case object_hook env x of Inl e \<Rightarrow> Inl e
      | Inr y \<Rightarrow>
         (case object_hook_items env d of Inl e \<Rightarrow> Inl e | Inr d' \<Rightarrow> Inr ((k, y) # d')))"
  by pat_completeness auto
termination
  by (relation "measure (\<lambda>a. case a of Inl (_, x) \<Rightarrow> 2 * size x
        | Inr (Inl (_, xs)) \<Rightarrow> 2 * size (PList xs) - 1
        | Inr (Inr (_, d)) \<Rightarrow> 2 * size (PDict d) - 1)") auto

definition loads_request :: "env \<Rightarrow> string \<Rightarrow> exn + pyval" where
  "loads_request env request =
     (case json_loads env request of Inl e \<Rightarrow> Inl e | Inr v \<Rightarrow> object_hook env v)"

section \<open>The request queue\<close>

text \<open>
  \<open>DistributedAPI(**request, logger=..., node=node)\<close>: \<open>TypeError\<close> when the request is not
  a dict, has a key that is no parameter of the constructor (or is \<open>logger\<close> or \<open>node\<close>,
  given twice), or has no \<open>f\<close>. The flags are kept as their truth values. The object
  holds \<open>f_kwargs\<close> as a dict; a request whose \<open>f_kwargs\<close> is anything else is not covered
  (\<open>Inr None\<close>).
\<close>

definition init_params :: "string list" where
  "init_params = [''f'', ''f_kwargs'', ''debug'', ''pretty'', ''request_type'',
     ''wait_for_complete'', ''from_cluster'', ''is_async'']"

definition flag :: "pydict \<Rightarrow> string \<Rightarrow> bool" where
  "flag d k = (case map_of d k of None \<Rightarrow> False | Some v \<Rightarrow> py_truthy v)"

definition new_dapi :: "env \<Rightarrow> channel \<Rightarrow> pyval \<Rightarrow> exn + dapi option" where
  "new_dapi env nd request =
     (case request of
        PDict d \<Rightarrow>
          if \<not> list_all (\<lambda>k. k \<in> set init_params) (map fst d) then Inl TypeError
          else (case map_of d ''f'' of None \<Rightarrow> Inl TypeError
                | Some fv \<Rightarrow>
                  (case (case map_of d ''f_kwargs'' of None \<Rightarrow> Some [] | Some (PDict kw) \<Rightarrow> Some kw
                         | Some _ \<Rightarrow> None) of
                     None \<Rightarrow> Inr None
                   | Some kw \<Rightarrow>
                       Inr (Some \<lparr>func = fv, f_kwargs = kw, node = nd,
                         cluster_items = node_cluster_items env nd,
                         debug = flag d ''debug'',
                         node_info_type = fst (get_node env),
                         node_info_node = snd (get_node env),
                         request_type = (case map_of d ''request_type'' of
                                           None \<Rightarrow> PStr ''local_master'' | Some v \<Rightarrow> v),
                         wait_for_complete = flag d ''wait_for_complete'',
                         from_cluster = flag d ''from_cluster'',
                         is_async = flag d ''is_async''\<rparr>)))
      | _ \<Rightarrow> Inl TypeError)"

text \<open>\<open>json.dumps(v)\<close> with the default encoder raises \<open>TypeError\<close> on an object.\<close>

function (sequential) serializable :: "pyval \<Rightarrow> bool"
  and serializable_list :: "pyval list \<Rightarrow> bool"
  and serializable_items :: "pydict \<Rightarrow> bool"
where
  "serializable (PObj r) = False"
| "serializable (PList xs) = serializable_list xs"
| "serializable (PDict d) = serializable_items d"
| "serializable v = True"
| "serializable_list [] = True"
| "serializable_list (x # xs) = (serializable x \<and> serializable_list xs)"
| "serializable_items [] = True"
| "serializable_items ((k, x) # d) = (serializable x \<and> serializable_items d)"
  by pat_completeness auto
termination
  by (relation "measure (\<lambda>a. case a of Inl x \<Rightarrow> 2 * size x
        | Inr (Inl xs) \<Rightarrow> 2 * size (PList xs) - 1
        | Inr (Inr d) \<Rightarrow> 2 * size (PDict d) - 1)") auto

text \<open>
  How the consumer stands after the requests queued so far: waiting in
  \<open>request_queue.get()\<close> for the next one, ended by an exception that left \<open>run\<close>,
  waiting for a call that never returns, or at a request this model does not cover.
\<close>

datatype run_status = Waiting | Crashed exn | Stuck | OutOfFuel | NotCovered

text \<open>Lines 329 to 336: the reply, once \<open>distribute_function\<close> has returned \<open>result\<close>.\<close>

definition reply :: "env \<Rightarrow> channel \<Rightarrow> string \<Rightarrow> pyval \<Rightarrow> event list \<times> exn option" where
  "reply env nd name_2 result =
     (if \<not> serializable result then ([], Some TypeError)
      else (case send_string env nd result of
              Inl e \<Rightarrow> ([SendString nd result], Some e)
            | Inr task_id \<Rightarrow>
                (let failed = prefix ''Error'' task_id;
                     tag = (if failed then ''dapi_err'' else ''dapi_res'');
                     evs = [SendString nd result] @ (if failed then [LogError task_id] else [])
                             @ [SendRequest nd tag (name_2 @ task_id) ''dapi_err'']
                 in case send_request env nd tag (name_2 @ task_id) ''dapi_err'' of
                      Inl e \<Rightarrow> (evs, Some e)
                    | Inr res \<Rightarrow>
                        (evs @ (if prefix ''Error'' res then [LogError res] else []), None))))"

text \<open>
  One turn of the \<open>while True\<close> loop, lines 321 to 336, on the dequeued string: the events
  and, when the turn does not reach its end, how the consumer stands instead.
\<close>

definition run_once :: "nat \<Rightarrow> env \<Rightarrow> string \<Rightarrow> event list \<times> run_status option" where
  "run_once fuel env item =
     (case split_once (CHR '' '') item of
        [names_str, request] \<Rightarrow>
          (let names = split_once (CHR ''*'') names_str;
               name_2 = (if length names = 1 then [] else names ! 1 @ '' '')
           in if hd names \<noteq> ''None'' \<and> \<not> has_client env (hd names)
              then ([], Some (Crashed KeyError))
              else
               (let nd = (if hd names = ''None'' then ServerClient else NamedClient (hd names))
                in case loads_request env request of Inl e \<Rightarrow> ([], Some (Crashed e))
                   | Inr decoded \<Rightarrow>
                     (case new_dapi env nd decoded of Inl e \<Rightarrow> ([], Some (Crashed e))
                      | Inr None \<Rightarrow> ([], Some NotCovered)
                      | Inr (Some st) \<Rightarrow>
                        (case distribute_function fuel env st of
                           None \<Rightarrow> ([], Some OutOfFuel)
                         | Some (Raised e, _, evs) \<Rightarrow> (evs, Some (Crashed e))
                         | Some (NeverReturns, _, evs) \<Rightarrow> (evs, Some Stuck)
                         | Some (Returned result, _, evs) \<Rightarrow>
                             (case reply env nd name_2 result of
                                (evs', Some e) \<Rightarrow> (evs @ evs', Some (Crashed e))
                              | (evs', None) \<Rightarrow> (evs @ evs', None))))))
      | _ \<Rightarrow> ([], Some (Crashed ValueError)))"

text \<open>
  \<open>run\<close> on the requests that \<open>add_request\<close> has queued, oldest first. The loop has no
  \<open>try\<close>: an exception in a turn leaves \<open>run\<close>, and the requests behind it stay in the
  queue.
\<close>

fun run :: "nat \<Rightarrow> env \<Rightarrow> string list \<Rightarrow> event list \<times> run_status" where
  "run fuel env [] = ([], Waiting)"
| "run fuel env (item # request_queue) =
     (case run_once fuel env item of
        (evs, Some status) \<Rightarrow> (evs, status)
      | (evs, None) \<Rightarrow>
          (case run fuel env request_queue of (evs', status) \<Rightarrow> (evs @ evs', status)))"

section \<open>A concrete cluster\<close>

text \<open>
  A master node \<open>masterX\<close> with two agents on the workers \<open>nodeA\<close> and \<open>nodeB\<close>, a timeout
  of 10 time units, and a target function that answers after 20. The theorems below are
  instantiated on it.
\<close>

definition example_items :: cluster_items where
  "example_items = \<lparr>enabled = True, timeout_api_request = 10\<rparr>"

definition example_env :: env where
  "example_env = \<lparr>
     get_cluster_items = Inr example_items,
     check_cluster_status = Inr False,
     get_agents_overview = (\<lambda>ids field. Inr [(PInt 1, ''nodeA''), (PInt 2, ''nodeB'')]),
     get_agent = (\<lambda>a. Inr ''nodeA''),
     set_order = (\<lambda>xs. xs),
     database_limit = 500,
     sort_array = (\<lambda>xs sort_by sort_order. Inr (rev xs)),
     call_obj = (\<lambda>r kw. Returns 20 (PStr ''done'')),
     node_execute = (\<lambda>c cmd p w. Inr ''reply''),
     json_loads = (\<lambda>s. Inr (PDict [(''data'', PDict [(''affected_agents'', PList [PStr ''001''])]),
                                    (''error'', PInt 0)])),
     wazuh_message = (\<lambda>c. ''Timeout executing API request''),
     exn_str = (\<lambda>e. ''failure''),
     obj_callable = (\<lambda>r. True),
     obj_attr = (\<lambda>r a. if a = ''__module__'' then Some ''wazuh.agent'' else Some ''restart''),
     obj_wazuh = (\<lambda>r. None),
     obj_type = (\<lambda>r. ''function''),
     import_module = (\<lambda>m. Inr 1),
     obj_getattr = (\<lambda>r a. if a = ''restart'' then Inr 2 else Inl AttributeError),
     new_wazuh = (\<lambda>p. Inr 3),
     has_client = (\<lambda>n. n = ''nodeA''),
     send_string = (\<lambda>c v. Inr ''task 1''),
     send_request = (\<lambda>c cmd body err. Inr ''ok''),
     get_node = (''master'', ''masterX''),
     node_cluster_items = (\<lambda>c. example_items)\<rparr>"

definition example_dapi :: dapi where
  "example_dapi = \<lparr>
     func = PObj 0,
     f_kwargs = [(''agent_id'', PList [PInt 1, PInt 2, PInt 3])],
     node = LocalClient,
     cluster_items = example_items,
     debug = False,
     node_info_type = ''master'',
     node_info_node = ''masterX'',
     request_type = PStr ''distributed_master'',
     wait_for_complete = False,
     from_cluster = False,
     is_async = False\<rparr>"

text \<open>
  The same cluster with two request texts: \<open>bad\<close> stands for a request whose function is
  encoded as \<open>{"__callable__": {}}\<close>, without a name; \<open>good\<close> for a \<open>local_any\<close> request
  for \<open>wazuh.agent.restart\<close> that waits for completion.
\<close>

definition example_queue_env :: env where
  "example_queue_env = example_env\<lparr>json_loads := (\<lambda>s.
     if s = ''bad''
     then Inr (PDict [(''f'', PDict [(''__callable__'', PDict [])])])
     else Inr (PDict [(''f'', PDict [(''__callable__'',
                 PDict [(''__name__'', PStr ''restart''), (''__qualname__'', PStr ''restart''),
                        (''__module__'', PStr ''wazuh.agent'')])]),
               (''request_type'', PStr ''local_any''),
               (''wait_for_complete'', PBool True)]))\<rparr>"

section \<open>The routing decision\<close>

text \<open>
  C2. When the two reads of the cluster state return, the routing decision is the first
  matching of three branches: local when the distributed API is disabled, or the cluster
  status check is true, or the request type is \<open>local_any\<close>, or it is \<open>local_master\<close> on
  the master, or it is \<open>distributed_master\<close> on a request that came from the cluster;
  else forward when it is \<open>distributed_master\<close> on the master; else remote. The status
  check is only read when the distributed API is enabled. \<open>distribute_function\<close> then
  runs that branch and no other, under its \<open>except\<close> clauses.
\<close>

theorem routing_decision:
  assumes "get_cluster_items env = Inr items"
    and "enabled items \<Longrightarrow> check_cluster_status env = Inr degraded"
    and "b = (if \<not> enabled items \<or> degraded
                   \<or> request_type st = PStr ''local_any''
                   \<or> (request_type st = PStr ''local_master'' \<and> node_info_type st = ''master'')
                   \<or> (request_type st = PStr ''distributed_master'' \<and> from_cluster st)
              then Local
              else if request_type st = PStr ''distributed_master''
                      \<and> node_info_type st = ''master''
              then Forward else Remote)"
  shows "routing env st = Inr b
         \<and> distribute_function (Suc n) env st =
             (case b of
                Local \<Rightarrow> Some (handled env st (execute_local_request env st))
              | Forward \<Rightarrow>
                  (case forward_request n env st of None \<Rightarrow> None
                   | Some (r, st', evs) \<Rightarrow> Some (handled env st' (r, evs)))
              | Remote \<Rightarrow> Some (handled env st (execute_remote_request env st)))"
proof -
  have r: "routing env st = Inr b"
  proof (cases "enabled items")
    case True
    with assms show ?thesis by (simp add: routing_def)
  next
    case False
    with assms(1,3) show ?thesis by (simp add: routing_def)
  qed
  then show ?thesis
    by (cases b) (simp_all del: forward_request.simps)
qed

text \<open>
  The master forwards a \<open>distributed_master\<close> request, runs it locally once it came from
  the cluster, and a worker sends it to the master.
\<close>

theorem routing_decision_witness:
  "routing example_env example_dapi = Inr Forward
   \<and> routing example_env (example_dapi\<lparr>from_cluster := True\<rparr>) = Inr Local
   \<and> routing example_env (example_dapi\<lparr>node_info_type := ''worker''\<rparr>) = Inr Remote
   \<and> distribute_function (Suc 0) example_env (example_dapi\<lparr>from_cluster := True\<rparr>) =
       Some (handled example_env (example_dapi\<lparr>from_cluster := True\<rparr>)
               (execute_local_request example_env (example_dapi\<lparr>from_cluster := True\<rparr>)))"
proof -
  have c: "get_cluster_items example_env = Inr example_items"
    and s: "enabled example_items \<Longrightarrow> check_cluster_status example_env = Inr False"
    by (simp_all add: example_env_def)
  have e: "enabled example_items" by (simp add: example_items_def)
  from routing_decision [OF c s refl, of example_dapi 0] e
  have a: "routing example_env example_dapi = Inr Forward"
    by (simp add: example_dapi_def del: distribute_function.simps)
  from routing_decision [OF c s refl, of "example_dapi\<lparr>from_cluster := True\<rparr>" 0] e
  have b: "routing example_env (example_dapi\<lparr>from_cluster := True\<rparr>) = Inr Local
    \<and> distribute_function (Suc 0) example_env (example_dapi\<lparr>from_cluster := True\<rparr>) =
       Some (handled example_env (example_dapi\<lparr>from_cluster := True\<rparr>)
               (execute_local_request example_env (example_dapi\<lparr>from_cluster := True\<rparr>)))"
    by (simp add: example_dapi_def del: distribute_function.simps)
  from routing_decision [OF c s refl, of "example_dapi\<lparr>node_info_type := ''worker''\<rparr>" 0] e
  have d: "routing example_env (example_dapi\<lparr>node_info_type := ''worker''\<rparr>) = Inr Remote"
    by (simp add: example_dapi_def del: distribute_function.simps)
  from a b d show ?thesis by simp
qed

section \<open>Properties of the merge\<close>

text \<open>The definitions that evaluate a merge on given responses.\<close>

lemmas merge_eval = merge_int_def merge_list_def merge_other_def paginate_def data_items_def
  py_in_list_def priorities_def default_limit_def default_offset_def sort_items_def
  slice_items_def set_data_items_def py_slice_def

text \<open>\<open>merge_results\<close> is its two loops followed by the pagination step.\<close>

lemma merge_results_eq:
  "merge_results env kw rs fin =
     (case merge_all env kw rs fin of (kw', Inl e) \<Rightarrow> (kw', Inl e)
      | (kw', Inr fin') \<Rightarrow> paginate env kw' fin')"
  by (induction env kw rs fin rule: merge_all.induct) (auto split: prod.splits sum.splits)

text \<open>
  One field of a response changes the accumulator at its own key only, and so does a whole
  response at the keys it has.
\<close>

lemma merge_list_frame:
  "merge_list (PDict acc) key field = Inr fin \<Longrightarrow>
     \<exists>out. fin = PDict out \<and> (\<forall>k. k \<noteq> key \<longrightarrow> map_of out k = map_of acc k)"
  by (auto simp: merge_list_def update_conv' split: if_splits sum.splits pyval.splits bool.splits option.splits)

lemma merge_int_frame:
  "merge_int (PDict acc) key field = Inr fin \<Longrightarrow>
     \<exists>out. fin = PDict out \<and> (\<forall>k. k \<noteq> key \<longrightarrow> map_of out k = map_of acc k)"
  by (auto simp: merge_int_def update_conv' split: if_splits sum.splits pyval.splits bool.splits option.splits)

lemma merge_other_frame:
  "merge_other (PDict acc) key field = Inr fin \<Longrightarrow>
     \<exists>out. fin = PDict out \<and> (\<forall>k. k \<noteq> key \<longrightarrow> map_of out k = map_of acc k)"
  by (auto simp: merge_other_def update_conv' split: if_splits sum.splits pyval.splits bool.splits option.splits)

lemma merge_local_Cons:
  assumes "merge_local env kw ((key, v) # d) (PDict acc) = (kw', Inr fin)"
  shows "\<exists>kw1 acc1. merge_local env kw1 d (PDict acc1) = (kw', Inr fin)
           \<and> (\<forall>k. k \<noteq> key \<longrightarrow> map_of acc1 k = map_of acc k)"
proof (cases v)
  case (PDict field)
  with assms obtain kw1 sub where
    rest: "merge_local env kw1 d (PDict (AList.update key sub acc)) = (kw', Inr fin)"
    by (auto split: sum.splits prod.splits if_splits)
  have "\<forall>k. k \<noteq> key \<longrightarrow> map_of (AList.update key sub acc) k = map_of acc k"
    by (simp add: update_conv')
  with rest show ?thesis by blast
next
  case (PList field)
  with assms obtain fin1 where s: "merge_list (PDict acc) key field = Inr fin1"
    and rest: "merge_local env kw d fin1 = (kw', Inr fin)"
    by (auto split: sum.splits)
  with merge_list_frame [OF s] show ?thesis by blast
next
  case (PInt field)
  with assms obtain fin1 where s: "merge_int (PDict acc) key field = Inr fin1"
    and rest: "merge_local env kw d fin1 = (kw', Inr fin)"
    by (auto split: sum.splits)
  with merge_int_frame [OF s] show ?thesis by blast
next
  case PNone
  with assms obtain fin1 where s: "merge_other (PDict acc) key v = Inr fin1"
    and rest: "merge_local env kw d fin1 = (kw', Inr fin)"
    by (auto split: sum.splits)
  with merge_other_frame [OF s] show ?thesis by blast
next
  case (PBool b)
  with assms obtain fin1 where s: "merge_other (PDict acc) key v = Inr fin1"
    and rest: "merge_local env kw d fin1 = (kw', Inr fin)"
    by (auto split: sum.splits)
  with merge_other_frame [OF s] show ?thesis by blast
next
  case (PStr t)
  with assms obtain fin1 where s: "merge_other (PDict acc) key v = Inr fin1"
    and rest: "merge_local env kw d fin1 = (kw', Inr fin)"
    by (auto split: sum.splits)
  with merge_other_frame [OF s] show ?thesis by blast
next
  case (PObj r)
  with assms obtain fin1 where s: "merge_other (PDict acc) key v = Inr fin1"
    and rest: "merge_local env kw d fin1 = (kw', Inr fin)"
    by (auto split: sum.splits)
  with merge_other_frame [OF s] show ?thesis by blast
qed

lemma merge_local_frame:
  "merge_local env kw d (PDict acc) = (kw', Inr fin) \<Longrightarrow>
     \<exists>out. fin = PDict out \<and> (\<forall>k. k \<notin> fst ` set d \<longrightarrow> map_of out k = map_of acc k)"
proof (induction d arbitrary: kw acc)
  case Nil
  then show ?case by auto
next
  case (Cons p d)
  obtain key v where p: "p = (key, v)" by (cases p)
  from merge_local_Cons [OF Cons.prems [unfolded p]] obtain kw1 acc1 where
    rest: "merge_local env kw1 d (PDict acc1) = (kw', Inr fin)"
    and fr: "\<forall>k. k \<noteq> key \<longrightarrow> map_of acc1 k = map_of acc k" by blast
  from Cons.IH [OF rest] fr show ?case using p by auto
qed

text \<open>
  What an int field leaves at its key, for one response, for a response with or without
  the key, and for all of them.
\<close>

lemma merge_int_at:
  assumes "merge_int (PDict acc) key v = Inr fin"
    and "map_of acc key = None \<or> (\<exists>a. map_of acc key = Some (PInt a))"
  shows "\<exists>out. fin = PDict out \<and> map_of out key =
           Some (PInt (case map_of acc key of None \<Rightarrow> v
                       | Some cur \<Rightarrow>
                           (case cur of PInt a \<Rightarrow>
                              if key = ''totalItems'' then a + v
                              else if key = ''error'' then max a v else a)))"
  using assms
  by (auto simp: merge_int_def update_conv' split: if_splits sum.splits option.splits)

lemma merge_local_int:
  assumes "merge_local env kw d (PDict acc) = (kw', Inr fin)"
    and "distinct (map fst d)" and "map_of d key = Some (PInt v)"
    and "map_of acc key = None \<or> (\<exists>a. map_of acc key = Some (PInt a))"
  shows "\<exists>out. fin = PDict out \<and> map_of out key =
           Some (PInt (case map_of acc key of None \<Rightarrow> v
                       | Some cur \<Rightarrow>
                           (case cur of PInt a \<Rightarrow>
                              if key = ''totalItems'' then a + v
                              else if key = ''error'' then max a v else a)))"
  using assms
proof (induction d arbitrary: kw acc)
  case Nil
  then show ?case by simp
next
  case (Cons p d)
  obtain k x where p: "p = (k, x)" by (cases p)
  show ?case
  proof (cases "k = key")
    case True
    with Cons.prems p have x: "x = PInt v" and notin: "key \<notin> fst ` set d" by auto
    from Cons.prems(1) p True x obtain fin1 where
      s: "merge_int (PDict acc) key v = Inr fin1"
      and rest: "merge_local env kw d fin1 = (kw', Inr fin)"
      by (auto split: sum.splits)
    from merge_int_at [OF s Cons.prems(4)] obtain out1 where
      o: "fin1 = PDict out1" and v1: "map_of out1 key =
           Some (PInt (case map_of acc key of None \<Rightarrow> v
                       | Some cur \<Rightarrow>
                           (case cur of PInt a \<Rightarrow>
                              if key = ''totalItems'' then a + v
                              else if key = ''error'' then max a v else a)))" by blast
    from merge_local_frame [OF rest [unfolded o]] notin v1 show ?thesis by auto
  next
    case False
    from merge_local_Cons [OF Cons.prems(1) [unfolded p]] obtain kw1 acc1 where
      rest: "merge_local env kw1 d (PDict acc1) = (kw', Inr fin)"
      and fr: "\<forall>k'. k' \<noteq> k \<longrightarrow> map_of acc1 k' = map_of acc k'" by blast
    from fr False have same: "map_of acc1 key = map_of acc key" by simp
    from Cons.prems p False have d: "distinct (map fst d)" "map_of d key = Some (PInt v)"
      by auto
    from Cons.IH [OF rest d] Cons.prems(4) same show ?thesis by simp
  qed
qed

lemma Max_insert_fold: "Max (insert a (set vs)) = fold max vs (a::int)"
  using Max.set_eq_fold [of a vs] by simp

lemma merge_local_int_opt:
  assumes "merge_local env kw d (PDict acc) = (kw', Inr fin)"
    and "distinct (map fst d)" and "map_of d key = map_option PInt v"
    and "map_of acc key = map_option PInt cur"
  shows "\<exists>out. fin = PDict out \<and> map_of out key =
           map_option PInt
             (case v of None \<Rightarrow> cur
              | Some x \<Rightarrow>
                  (case cur of None \<Rightarrow> Some x
                   | Some a \<Rightarrow>
                       Some (if key = ''totalItems'' then a + x
                             else if key = ''error'' then max a x else a)))"
proof (cases v)
  case None
  with assms(3) have "key \<notin> fst ` set d" by (simp add: map_of_eq_None_iff)
  with merge_local_frame [OF assms(1)] assms(4) None show ?thesis by auto
next
  case (Some x)
  with assms(3) have "map_of d key = Some (PInt x)" by simp
  from merge_local_int [OF assms(1,2) this] assms(4) Some show ?thesis
    by (cases cur) auto
qed

lemma merge_all_int:
  assumes "list_all2 (\<lambda>r v. \<exists>d. r = PDict d \<and> distinct (map fst d)
              \<and> map_of d key = map_option PInt v) responses vs"
    and "merge_all env kw responses (PDict acc) = (kw', Inr fin)"
    and "map_of acc key = map_option PInt cur"
  shows "\<exists>out. fin = PDict out \<and> map_of out key =
           (case List.map_filter id (cur # vs) of [] \<Rightarrow> None
            | a # rest \<Rightarrow>
                Some (PInt (if key = ''totalItems'' then a + sum_list rest
                            else if key = ''error'' then fold max rest a else a)))"
  using assms
proof (induction responses vs arbitrary: kw acc cur rule: list_all2_induct)
  case Nil
  then show ?case by (cases cur) (auto simp: List.map_filter_simps)
next
  case (Cons r rs v vs)
  from Cons.hyps(1) obtain d where r: "r = PDict d" and d: "distinct (map fst d)"
    "map_of d key = map_option PInt v" by blast
  from Cons.prems(1) r obtain kw1 fin1 where
    one: "merge_local env kw d (PDict acc) = (kw1, Inr fin1)"
    and rest: "merge_all env kw1 rs fin1 = (kw', Inr fin)"
    by (auto split: prod.splits sum.splits)
  let ?cur1 = "case v of None \<Rightarrow> cur
              | Some x \<Rightarrow>
                  (case cur of None \<Rightarrow> Some x
                   | Some a \<Rightarrow>
                       Some (if key = ''totalItems'' then a + x
                             else if key = ''error'' then max a x else a))"
  from merge_local_int_opt [OF one d Cons.prems(2)] obtain out1 where
    o: "fin1 = PDict out1" and v1: "map_of out1 key = map_option PInt ?cur1" by blast
  from Cons.IH [OF rest [unfolded o] v1] obtain out where
    f: "fin = PDict out" and res: "map_of out key =
           (case List.map_filter id (?cur1 # vs) of [] \<Rightarrow> None
            | a # rest \<Rightarrow>
                Some (PInt (if key = ''totalItems'' then a + sum_list rest
                            else if key = ''error'' then fold max rest a else a)))" by blast
  have eq: "(case List.map_filter id (?cur1 # vs) of [] \<Rightarrow> None
            | a # rest \<Rightarrow>
                Some (PInt (if key = ''totalItems'' then a + sum_list rest
                            else if key = ''error'' then fold max rest a else a)))
      = (case List.map_filter id (cur # v # vs) of [] \<Rightarrow> None
            | a # rest \<Rightarrow>
                Some (PInt (if key = ''totalItems'' then a + sum_list rest
                            else if key = ''error'' then fold max rest a else a)))"
    by (cases v; cases cur) (auto simp: List.map_filter_simps max.commute)
  from res have "map_of out key =
      (case List.map_filter id (cur # v # vs) of [] \<Rightarrow> None
            | a # rest \<Rightarrow>
                Some (PInt (if key = ''totalItems'' then a + sum_list rest
                            else if key = ''error'' then fold max rest a else a)))"
    by (simp only: eq)
  with f show ?case by blast
qed

text \<open>The pagination step changes nothing but \<open>data\<close>, and \<open>data\<close> only when it is a dict.\<close>

lemma data_items_int:
  "map_of out ''data'' = Some (PInt x) \<Longrightarrow> data_items (PDict out) = Inl TypeError"
  by (simp add: data_items_def)

lemma paginate_frame:
  assumes "paginate env kw (PDict out) = (kw', Inr fin)"
  shows "\<exists>out'. fin = PDict out' \<and> (\<forall>k. k \<noteq> ''data'' \<longrightarrow> map_of out' k = map_of out k)"
  using assms
  by (auto simp: paginate_def set_data_items_def Let_def update_conv'
      split: sum.splits option.splits pyval.splits)

lemma paginate_int:
  assumes "paginate env kw (PDict out) = (kw', Inr fin)"
    and "map_of out key = map_option PInt x"
  shows "\<exists>out'. fin = PDict out' \<and> map_of out' key = map_option PInt x"
proof (cases "key = ''data''")
  case True
  show ?thesis
  proof (cases x)
    case None
    with True assms(2) have "data_items (PDict out) = Inr None" by (simp add: data_items_def)
    with assms None show ?thesis by (auto simp: paginate_def)
  next
    case (Some a)
    with True assms(2) have "data_items (PDict out) = Inl TypeError"
      by (simp add: data_items_int)
    with assms(1) show ?thesis by (simp add: paginate_def)
  qed
next
  case False
  with paginate_frame [OF assms(1)] assms(2) show ?thesis by auto
qed

text \<open>
  The arguments leave every function of the merge as they were or with the two defaults
  set, at every nested level.
\<close>

lemma default_idem:
  "default_limit env (default_offset (default_limit env (default_offset kw)))
     = default_limit env (default_offset kw)"
  by (simp add: default_limit_def default_offset_def update_conv')

lemma paginate_kw:
  "paginate env kw fin = (kw', r) \<Longrightarrow>
     kw' = kw \<or> kw' = default_limit env (default_offset kw)"
  by (auto simp: paginate_def Let_def split: sum.splits option.splits)

lemma kw_chain:
  assumes "kw1 = kw \<or> kw1 = default_limit env (default_offset kw)"
    and "kw2 = kw1 \<or> kw2 = default_limit env (default_offset kw1)"
  shows "kw2 = kw \<or> kw2 = default_limit env (default_offset kw)"
  using assms default_idem [of env kw] by auto

lemma merge_kw:
  "merge_results env kw rs fin = (kw', r) \<Longrightarrow>
     kw' = kw \<or> kw' = default_limit env (default_offset kw)"
  "merge_local env kw d fin = (kw', r) \<Longrightarrow>
     kw' = kw \<or> kw' = default_limit env (default_offset kw)"
proof (induction env kw rs fin and env kw d fin arbitrary: kw' r and kw' r
    rule: merge_results_merge_local.induct)
  case (1 env kw fin)
  then show ?case by (simp add: paginate_kw)
next
  case (2 env kw local_json responses fin)
  show ?case
  proof (cases "merge_local env kw local_json fin")
    case (Pair kw1 r1)
    note a = "2.IH"(1) [OF Pair]
    show ?thesis
    proof (cases r1)
      case (Inl e)
      with "2.prems" Pair a show ?thesis by simp
    next
      case (Inr fin1)
      with "2.prems" Pair have "merge_results env kw1 responses fin1 = (kw', r)" by simp
      from "2.IH"(2) [OF Pair [symmetric] Inr this] a show ?thesis
        by (rule kw_chain [rotated])
    qed
  qed
next
  case (5 env kw key field rest fin)
  show ?case
  proof (cases "py_contains fin key")
    case (Inl e)
    with "5.prems" show ?thesis by simp
  next
    case c: (Inr b)
    show ?thesis
    proof (cases "if b then py_getitem fin key else Inr (PDict [])")
      case (Inl e)
      with "5.prems" c show ?thesis by (simp del: merge_results.simps)
    next
      case g: (Inr ba)
      obtain kw1 r1 where m: "merge_results env kw [PDict field] ba = (kw1, r1)"
        by (cases "merge_results env kw [PDict field] ba")
      note a = "5.IH"(1) [OF c g m]
      show ?thesis
      proof (cases r1)
        case (Inl e)
        with "5.prems" c g m a show ?thesis by (simp del: merge_results.simps)
      next
        case r1: (Inr sub)
        show ?thesis
        proof (cases "py_setitem fin key sub")
          case (Inl e)
          with "5.prems" c g m r1 a show ?thesis by (simp del: merge_results.simps)
        next
          case s: (Inr bc)
          with "5.prems" c g m r1 have rest: "merge_local env kw1 rest bc = (kw', r)"
            by (simp del: merge_results.simps)
          from "5.IH"(2) [OF c g m [symmetric] r1 s rest] a show ?thesis
            by (rule kw_chain [rotated])
        qed
      qed
    qed
  qed
qed (auto split: sum.splits)

lemma merge_all_kw:
  "merge_all env kw rs fin = (kw', r) \<Longrightarrow>
     kw' = kw \<or> kw' = default_limit env (default_offset kw)"
proof (induction env kw rs fin arbitrary: kw' r rule: merge_all.induct)
  case (2 env kw local_json responses fin)
  show ?case
  proof (cases "merge_local env kw local_json fin")
    case (Pair kw1 r1)
    note a = merge_kw(2) [OF Pair]
    show ?thesis
    proof (cases r1)
      case (Inl e)
      with "2.prems" Pair a show ?thesis by simp
    next
      case (Inr fin1)
      with "2.prems" Pair have "merge_all env kw1 responses fin1 = (kw', r)" by simp
      from "2.IH" [OF Pair [symmetric] Inr this] a show ?thesis
        by (rule kw_chain [rotated])
    qed
  qed
qed auto

lemma paginate_defaults:
  assumes "paginate env kw1 fin1 = (kw', Inr fin)" and "data_items fin = Inr (Some xs)"
  shows "kw' = default_limit env (default_offset kw1)"
proof (cases "data_items fin1")
  case (Inl e)
  with assms(1) show ?thesis by (simp add: paginate_def)
next
  case (Inr found)
  show ?thesis
  proof (cases found)
    case None
    with Inr assms show ?thesis by (simp add: paginate_def)
  next
    case (Some ys)
    with Inr assms(1) show ?thesis by (simp add: paginate_def Let_def)
  qed
qed

lemma py_slice_nonneg:
  "0 \<le> i \<Longrightarrow> 0 \<le> l \<Longrightarrow> py_slice xs i (i + l) = take (nat l) (drop (nat i) xs)"
  by (auto simp: py_slice_def Let_def min_def nat_diff_distrib nat_add_distrib)

lemma map_of_defaults_sort:
  "map_of (default_limit env (default_offset kw)) ''sort'' = map_of kw ''sort''"
  by (simp add: default_limit_def default_offset_def update_conv')

text \<open>What a list field leaves at its key.\<close>

lemma merge_list_at:
  assumes "merge_list (PDict acc) key ys = Inr fin"
    and "map_of acc key = None \<or> (\<exists>xs. map_of acc key = Some (PList xs))"
  shows "\<exists>out. fin = PDict out \<and> map_of out key =
           Some (PList (case map_of acc key of None \<Rightarrow> ys
                        | Some cur \<Rightarrow>
                            (case cur of PList xs \<Rightarrow>
                               xs @ filter (\<lambda>elem. \<not> py_in_list elem xs) ys)))"
  using assms
  by (auto simp: merge_list_def update_conv' split: if_splits sum.splits option.splits)

lemma merge_local_list:
  assumes "merge_local env kw d (PDict acc) = (kw', Inr fin)"
    and "distinct (map fst d)" and "map_of d key = Some (PList ys)"
    and "map_of acc key = None \<or> (\<exists>xs. map_of acc key = Some (PList xs))"
  shows "\<exists>out. fin = PDict out \<and> map_of out key =
           Some (PList (case map_of acc key of None \<Rightarrow> ys
                        | Some cur \<Rightarrow>
                            (case cur of PList xs \<Rightarrow>
                               xs @ filter (\<lambda>elem. \<not> py_in_list elem xs) ys)))"
  using assms
proof (induction d arbitrary: kw acc)
  case Nil
  then show ?case by simp
next
  case (Cons p d)
  obtain k x where p: "p = (k, x)" by (cases p)
  show ?case
  proof (cases "k = key")
    case True
    with Cons.prems p have x: "x = PList ys" and notin: "key \<notin> fst ` set d" by auto
    from Cons.prems(1) p True x obtain fin1 where
      s: "merge_list (PDict acc) key ys = Inr fin1"
      and rest: "merge_local env kw d fin1 = (kw', Inr fin)"
      by (auto split: sum.splits)
    from merge_list_at [OF s Cons.prems(4)] obtain out1 where
      o: "fin1 = PDict out1" and v1: "map_of out1 key =
           Some (PList (case map_of acc key of None \<Rightarrow> ys
                        | Some cur \<Rightarrow>
                            (case cur of PList xs \<Rightarrow>
                               xs @ filter (\<lambda>elem. \<not> py_in_list elem xs) ys)))" by blast
    from merge_local_frame [OF rest [unfolded o]] notin v1 show ?thesis by auto
  next
    case False
    from merge_local_Cons [OF Cons.prems(1) [unfolded p]] obtain kw1 acc1 where
      rest: "merge_local env kw1 d (PDict acc1) = (kw', Inr fin)"
      and fr: "\<forall>k'. k' \<noteq> k \<longrightarrow> map_of acc1 k' = map_of acc k'" by blast
    from fr False have same: "map_of acc1 key = map_of acc key" by simp
    from Cons.prems p False have d: "distinct (map fst d)" "map_of d key = Some (PList ys)"
      by auto
    from Cons.IH [OF rest d] Cons.prems(4) same show ?thesis by simp
  qed
qed

lemma paginate_list:
  assumes "paginate env kw (PDict out) = (kw', Inr fin)" and "map_of out key = Some (PList l)"
  shows "\<exists>out'. fin = PDict out' \<and> map_of out' key = Some (PList l)"
proof (cases "key = ''data''")
  case True
  with assms(2) have "data_items (PDict out) = Inl TypeError \<or> data_items (PDict out) = Inr None"
    by (simp add: data_items_def split: bool.splits)
  with assms show ?thesis by (auto simp: paginate_def)
next
  case False
  with paginate_frame [OF assms(1)] assms(2) show ?thesis by auto
qed

lemma merge_two_lists:
  assumes "distinct (map fst d1)" and "distinct (map fst d2)"
    and "map_of d1 key = Some (PList xs)" and "map_of d2 key = Some (PList ys)"
    and "map_of acc key = None"
    and "merge_results env kw [PDict d1, PDict d2] (PDict acc) = (kw', Inr fin)"
  shows "\<exists>out. fin = PDict out \<and> map_of out key =
           Some (PList (xs @ filter (\<lambda>elem. \<not> py_in_list elem xs) ys))"
proof -
  from assms(6) obtain kw1 fin1 kw2 fin2 where
    one: "merge_local env kw d1 (PDict acc) = (kw1, Inr fin1)"
    and two: "merge_local env kw1 d2 fin1 = (kw2, Inr fin2)"
    and page: "paginate env kw2 fin2 = (kw', Inr fin)"
    by (auto split: prod.splits sum.splits)
  from merge_local_list [OF one assms(1,3)] assms(5) obtain out1 where
    o1: "fin1 = PDict out1" and v1: "map_of out1 key = Some (PList xs)" by auto
  from merge_local_list [OF two [unfolded o1] assms(2,4)] v1 obtain out2 where
    o2: "fin2 = PDict out2"
    and v2: "map_of out2 key = Some (PList (xs @ filter (\<lambda>elem. \<not> py_in_list elem xs) ys))"
    by auto
  from paginate_list [OF page [unfolded o2] v2] show ?thesis .
qed

lemma filter_disjoint:
  "\<forall>e\<in>set ys. \<not> py_in_list e xs \<Longrightarrow> filter (\<lambda>elem. \<not> py_in_list elem xs) ys = ys"
  by (induction ys) auto

text \<open>
  C6. Contributors that each hold an int at \<open>key\<close>, or do not have the key, are merged
  into an accumulator that holds an int there or nothing. With \<open>ws\<close> the values in order
  (the accumulator's first, when it has one), the merged value is their sum for
  \<open>totalItems\<close>, their maximum for \<open>error\<close>, and the first of them for any other key;
  the key stays absent when nobody has it. The accumulator is empty at the top level and
  holds the earlier contributors' value at a nested level.
\<close>

theorem merge_results_int_rules:
  assumes "list_all2 (\<lambda>r v. \<exists>d. r = PDict d \<and> distinct (map fst d)
              \<and> map_of d key = map_option PInt v) responses vs"
    and "map_of acc key = map_option PInt prior"
    and "ws = List.map_filter id (prior # vs)"
    and "merge_results env kw responses (PDict acc) = (kw', Inr fin)"
  shows "\<exists>out. fin = PDict out \<and> map_of out key =
           (if ws = [] then None
            else Some (PInt (if key = ''totalItems'' then sum_list ws
                             else if key = ''error'' then Max (set ws) else hd ws)))"
proof -
  from assms(4) obtain kw1 fin1 where
    loop: "merge_all env kw responses (PDict acc) = (kw1, Inr fin1)"
    and page: "paginate env kw1 fin1 = (kw', Inr fin)"
    by (auto simp: merge_results_eq split: prod.splits sum.splits)
  let ?res = "if ws = [] then None
            else Some (if key = ''totalItems'' then sum_list ws
                       else if key = ''error'' then Max (set ws) else hd ws)"
  from merge_all_int [OF assms(1) loop assms(2)] obtain out1 where
    o1: "fin1 = PDict out1" and v1: "map_of out1 key =
           (case ws of [] \<Rightarrow> None
            | a # rest \<Rightarrow>
                Some (PInt (if key = ''totalItems'' then a + sum_list rest
                            else if key = ''error'' then fold max rest a else a)))"
    unfolding assms(3) by blast
  have "map_of out1 key = map_option PInt ?res"
    unfolding v1 by (cases ws) (auto simp: Max_insert_fold)
  from paginate_int [OF page [unfolded o1] this] show ?thesis
    by (auto split: if_splits)
qed

text \<open>On two contributors: 2 and 3 give 5, 0 and 1000 give 1000, 7 and 9 give 7.\<close>

theorem merge_results_int_rules_witness:
  "merge_results example_env []
     [PDict [(''totalItems'', PInt 2), (''error'', PInt 0), (''affected'', PInt 7)],
      PDict [(''totalItems'', PInt 3), (''error'', PInt 1000), (''affected'', PInt 9)]]
     (PDict [])
   = ([], Inr (PDict [(''totalItems'', PInt 5), (''error'', PInt 1000), (''affected'', PInt 7)]))
   \<and> (\<exists>out. PDict [(''totalItems'', PInt 5), (''error'', PInt 1000), (''affected'', PInt 7)]
               = PDict out
             \<and> map_of out ''totalItems'' = Some (PInt (sum_list [2, 3]))
             \<and> map_of out ''error'' = Some (PInt (Max (set [0, 1000])))
             \<and> map_of out ''affected'' = Some (PInt (hd [7, 9])))"
proof -
  let ?rs = "[PDict [(''totalItems'', PInt 2), (''error'', PInt 0), (''affected'', PInt 7)],
      PDict [(''totalItems'', PInt 3), (''error'', PInt 1000), (''affected'', PInt 9)]]"
  have ev: "merge_results example_env [] ?rs (PDict [])
     = ([], Inr (PDict [(''totalItems'', PInt 5), (''error'', PInt 1000), (''affected'', PInt 7)]))"
    by (simp add: merge_eval)
  have t: "\<exists>out. PDict [(''totalItems'', PInt 5), (''error'', PInt 1000), (''affected'', PInt 7)]
               = PDict out \<and> map_of out ''totalItems'' = Some (PInt (sum_list [2, 3]))"
    using merge_results_int_rules [where key = "''totalItems''" and vs = "[Some 2, Some 3]"
        and prior = None and ws = "[2, 3]" and acc = "[]", OF _ _ _ ev]
    by (simp add: List.map_filter_simps)
  have e: "\<exists>out. PDict [(''totalItems'', PInt 5), (''error'', PInt 1000), (''affected'', PInt 7)]
               = PDict out \<and> map_of out ''error'' = Some (PInt (Max (set [0, 1000])))"
    using merge_results_int_rules [where key = "''error''" and vs = "[Some 0, Some 1000]"
        and prior = None and ws = "[0, 1000]" and acc = "[]", OF _ _ _ ev]
    by (simp add: List.map_filter_simps)
  have a: "\<exists>out. PDict [(''totalItems'', PInt 5), (''error'', PInt 1000), (''affected'', PInt 7)]
               = PDict out \<and> map_of out ''affected'' = Some (PInt (hd [7, 9]))"
    using merge_results_int_rules [where key = "''affected''" and vs = "[Some 7, Some 9]"
        and prior = None and ws = "[7, 9]" and acc = "[]", OF _ _ _ ev]
    by (simp add: List.map_filter_simps)
  from ev t e a show ?thesis by auto
qed

text \<open>
  C7 as stated fails on its last part: two contributors with the disjoint lists
  \<open>['001']\<close> and \<open>['002']\<close> give \<open>['001', '002']\<close> in one order and \<open>['002', '001']\<close> in
  the other.
\<close>

theorem merge_results_list_order_counterexample:
  "merge_results example_env []
     [PDict [(''affected_agents'', PList [PStr ''001''])],
      PDict [(''affected_agents'', PList [PStr ''002''])]] (PDict [])
   \<noteq> merge_results example_env []
     [PDict [(''affected_agents'', PList [PStr ''002''])],
      PDict [(''affected_agents'', PList [PStr ''001''])]] (PDict [])"
  by (simp add: merge_eval)

text \<open>
  C7, amended. Two contributors hold the lists \<open>xs\<close> and \<open>ys\<close> at \<open>key\<close>, which the
  accumulator does not have yet. The merged list is \<open>xs\<close> followed by the elements of \<open>ys\<close>
  that are not equal to an element of \<open>xs\<close>, in their order. When no element of one list
  equals an element of the other, the two contributor orders give \<open>xs @ ys\<close> and
  \<open>ys @ xs\<close>: the same elements with the same multiplicities, in the order of arrival.
\<close>

theorem merge_results_list_rule:
  assumes "distinct (map fst d1)" and "distinct (map fst d2)"
    and "map_of d1 key = Some (PList xs)" and "map_of d2 key = Some (PList ys)"
    and "map_of acc key = None"
    and "merge_results env kw [PDict d1, PDict d2] (PDict acc) = (kw', Inr fin)"
  shows "(\<exists>out. fin = PDict out \<and> map_of out key =
            Some (PList (xs @ filter (\<lambda>elem. \<not> py_in_list elem xs) ys)))
       \<and> (\<forall>kw'' fin'.
            (\<forall>e\<in>set ys. \<not> py_in_list e xs) \<and> (\<forall>e\<in>set xs. \<not> py_in_list e ys)
            \<and> merge_results env kw [PDict d2, PDict d1] (PDict acc) = (kw'', Inr fin')
            \<longrightarrow> (\<exists>out out' l l'. fin = PDict out \<and> fin' = PDict out'
                   \<and> map_of out key = Some (PList l) \<and> map_of out' key = Some (PList l')
                   \<and> l = xs @ ys \<and> l' = ys @ xs \<and> mset l = mset l'))"
proof (intro conjI allI impI)
  show "\<exists>out. fin = PDict out \<and> map_of out key =
            Some (PList (xs @ filter (\<lambda>elem. \<not> py_in_list elem xs) ys))"
    by (rule merge_two_lists [OF assms])
next
  fix kw'' fin'
  assume h: "(\<forall>e\<in>set ys. \<not> py_in_list e xs) \<and> (\<forall>e\<in>set xs. \<not> py_in_list e ys)
            \<and> merge_results env kw [PDict d2, PDict d1] (PDict acc) = (kw'', Inr fin')"
  from merge_two_lists [OF assms] h obtain out where
    a: "fin = PDict out" "map_of out key = Some (PList (xs @ ys))"
    by (auto simp: filter_disjoint)
  from h have rev: "merge_results env kw [PDict d2, PDict d1] (PDict acc) = (kw'', Inr fin')"
    by simp
  from merge_two_lists [OF assms(2,1,4,3,5) rev] h obtain out' where
    b: "fin' = PDict out'" "map_of out' key = Some (PList (ys @ xs))"
    by (auto simp: filter_disjoint)
  from a b show "\<exists>out out' l l'. fin = PDict out \<and> fin' = PDict out'
                   \<and> map_of out key = Some (PList l) \<and> map_of out' key = Some (PList l')
                   \<and> l = xs @ ys \<and> l' = ys @ xs \<and> mset l = mset l'"
    by simp
qed

text \<open>Merging \<open>[A, B]\<close> and \<open>[B, C]\<close> yields \<open>[A, B, C]\<close>.\<close>

theorem merge_results_list_rule_witness:
  "merge_results example_env []
     [PDict [(''affected_agents'', PList [PStr ''A'', PStr ''B''])],
      PDict [(''affected_agents'', PList [PStr ''B'', PStr ''C''])]] (PDict [])
   = ([], Inr (PDict [(''affected_agents'', PList [PStr ''A'', PStr ''B'', PStr ''C''])]))
   \<and> (\<exists>out. PDict [(''affected_agents'', PList [PStr ''A'', PStr ''B'', PStr ''C''])] = PDict out
        \<and> map_of out ''affected_agents'' =
            Some (PList ([PStr ''A'', PStr ''B'']
                   @ filter (\<lambda>elem. \<not> py_in_list elem [PStr ''A'', PStr ''B''])
                       [PStr ''B'', PStr ''C''])))
   \<and> (\<exists>out out' l l'.
         PDict [(''affected_agents'', PList [PStr ''001'', PStr ''002''])] = PDict out
         \<and> PDict [(''affected_agents'', PList [PStr ''002'', PStr ''001''])] = PDict out'
         \<and> map_of out ''affected_agents'' = Some (PList l)
         \<and> map_of out' ''affected_agents'' = Some (PList l')
         \<and> l = [PStr ''001''] @ [PStr ''002''] \<and> l' = [PStr ''002''] @ [PStr ''001'']
         \<and> mset l = mset l')"
proof -
  have ev: "merge_results example_env []
     [PDict [(''affected_agents'', PList [PStr ''A'', PStr ''B''])],
      PDict [(''affected_agents'', PList [PStr ''B'', PStr ''C''])]] (PDict [])
   = ([], Inr (PDict [(''affected_agents'', PList [PStr ''A'', PStr ''B'', PStr ''C''])]))"
    by (simp add: merge_eval)
  have ev12: "merge_results example_env []
     [PDict [(''affected_agents'', PList [PStr ''001''])],
      PDict [(''affected_agents'', PList [PStr ''002''])]] (PDict [])
   = ([], Inr (PDict [(''affected_agents'', PList [PStr ''001'', PStr ''002''])]))"
    by (simp add: merge_eval)
  have ev21: "merge_results example_env []
     [PDict [(''affected_agents'', PList [PStr ''002''])],
      PDict [(''affected_agents'', PList [PStr ''001''])]] (PDict [])
   = ([], Inr (PDict [(''affected_agents'', PList [PStr ''002'', PStr ''001''])]))"
    by (simp add: merge_eval)
  have first: "\<exists>out. PDict [(''affected_agents'', PList [PStr ''A'', PStr ''B'', PStr ''C''])]
          = PDict out
        \<and> map_of out ''affected_agents'' =
            Some (PList ([PStr ''A'', PStr ''B'']
                   @ filter (\<lambda>elem. \<not> py_in_list elem [PStr ''A'', PStr ''B''])
                       [PStr ''B'', PStr ''C'']))"
    by (rule merge_results_list_rule [where key = "''affected_agents''" and acc = "[]",
        OF _ _ _ _ _ ev, THEN conjunct1]) simp_all
  have dis: "(\<forall>e\<in>set [PStr ''002'']. \<not> py_in_list e [PStr ''001''])
       \<and> (\<forall>e\<in>set [PStr ''001'']. \<not> py_in_list e [PStr ''002''])
       \<and> merge_results example_env []
            [PDict [(''affected_agents'', PList [PStr ''002''])],
             PDict [(''affected_agents'', PList [PStr ''001''])]] (PDict [])
          = ([], Inr (PDict [(''affected_agents'', PList [PStr ''002'', PStr ''001''])]))"
    using ev21 by (simp add: py_in_list_def)
  have second: "\<exists>out out' l l'.
         PDict [(''affected_agents'', PList [PStr ''001'', PStr ''002''])] = PDict out
         \<and> PDict [(''affected_agents'', PList [PStr ''002'', PStr ''001''])] = PDict out'
         \<and> map_of out ''affected_agents'' = Some (PList l)
         \<and> map_of out' ''affected_agents'' = Some (PList l')
         \<and> l = [PStr ''001''] @ [PStr ''002''] \<and> l' = [PStr ''002''] @ [PStr ''001'']
         \<and> mset l = mset l'"
    by (rule merge_results_list_rule [where key = "''affected_agents''" and acc = "[]"
          and xs = "[PStr ''001'']" and ys = "[PStr ''002'']",
        OF _ _ _ _ _ ev12, THEN conjunct2, THEN spec, THEN spec, THEN mp, OF _ _ _ _ _ dis])
      simp_all
  show ?thesis
    by (intro conjI ev first second)
qed

text \<open>
  C8. When the two loops leave a \<open>final_json\<close> whose \<open>data.items\<close> is the list \<open>xs\<close>,
  \<open>merge_results\<close> returns it with that list replaced by the slice from \<open>offset\<close> to
  \<open>offset + limit\<close> of \<open>sorted_xs\<close>, where \<open>sorted_xs\<close> is \<open>xs\<close> when the arguments have no
  \<open>sort\<close> and \<open>sort_array(xs, sort['fields'], sort['order'])\<close> when they have one,
  \<open>offset\<close> defaults to 0 and \<open>limit\<close> to \<open>common.database_limit\<close>. For an offset and a
  limit that are not negative the slice is the \<open>limit\<close> elements after the first
  \<open>offset\<close>.
\<close>

theorem post_merge_pagination:
  assumes "merge_all env kw responses fin0 = (kw1, Inr (PDict fin1))"
    and "map_of fin1 ''data'' = Some (PDict dat)"
    and "map_of dat ''items'' = Some (PList xs)"
    and "(map_of kw1 ''sort'' = None \<and> sorted_xs = xs)
         \<or> (\<exists>s sort_by sort_order. map_of kw1 ''sort'' = Some s
               \<and> py_getitem s ''fields'' = Inr sort_by
               \<and> py_getitem s ''order'' = Inr sort_order
               \<and> sort_array env xs sort_by sort_order = Inr sorted_xs)"
    and "off = (case map_of kw1 ''offset'' of None \<Rightarrow> PInt 0 | Some v \<Rightarrow> v)"
    and "lim = (case map_of kw1 ''limit'' of None \<Rightarrow> PInt (database_limit env) | Some v \<Rightarrow> v)"
    and "py_int off = Some i" and "py_int lim = Some l"
  shows "merge_results env kw responses fin0 =
           (default_limit env (default_offset kw1),
            Inr (PDict (AList.update ''data''
                   (PDict (AList.update ''items'' (PList (py_slice sorted_xs i (i + l))) dat))
                   fin1)))
         \<and> (0 \<le> i \<and> 0 \<le> l \<longrightarrow>
              py_slice sorted_xs i (i + l) = take (nat l) (drop (nat i) sorted_xs))"
proof -
  let ?kw2 = "default_limit env (default_offset kw1)"
  have items: "data_items (PDict fin1) = Inr (Some xs)"
    using assms(2,3) by (simp add: data_items_def)
  have srt: "sort_items env ?kw2 xs = Inr sorted_xs"
    using assms(4) by (auto simp: sort_items_def map_of_defaults_sort)
  have o: "map_of ?kw2 ''offset'' = Some off" and li: "map_of ?kw2 ''limit'' = Some lim"
    using assms(5,6)
    by (auto simp: default_limit_def default_offset_def update_conv' split: option.splits)
  have sl: "slice_items ?kw2 sorted_xs = Inr (py_slice sorted_xs i (i + l))"
    using o li assms(7,8) by (simp add: slice_items_def)
  have st: "set_data_items (PDict fin1) (py_slice sorted_xs i (i + l)) =
      Inr (PDict (AList.update ''data''
                   (PDict (AList.update ''items'' (PList (py_slice sorted_xs i (i + l))) dat))
                   fin1))"
    using assms(2) by (simp add: set_data_items_def)
  have "paginate env kw1 (PDict fin1) = (?kw2, Inr (PDict (AList.update ''data''
                   (PDict (AList.update ''items'' (PList (py_slice sorted_xs i (i + l))) dat))
                   fin1)))"
    using items srt sl st by (simp add: paginate_def Let_def)
  with assms(1) show ?thesis
    by (simp add: merge_results_eq py_slice_nonneg)
qed

text \<open>
  Ten merged items, \<open>offset=2\<close>, \<open>limit=3\<close> and a sort (here: reversal): the result holds
  the items at positions 2 to 4 of the sorted list.
\<close>

theorem post_merge_pagination_witness:
  "merge_results example_env
     [(''offset'', PInt 2), (''limit'', PInt 3),
      (''sort'', PDict [(''fields'', PList [PStr ''id'']), (''order'', PStr ''desc'')])]
     [PDict [(''data'', PDict [(''items'', PList [PInt 0, PInt 1, PInt 2, PInt 3, PInt 4]),
                               (''totalItems'', PInt 5)]), (''error'', PInt 0)],
      PDict [(''data'', PDict [(''items'', PList [PInt 5, PInt 6, PInt 7, PInt 8, PInt 9]),
                               (''totalItems'', PInt 5)]), (''error'', PInt 0)]]
     (PDict [])
   = ([(''offset'', PInt 2), (''limit'', PInt 3),
       (''sort'', PDict [(''fields'', PList [PStr ''id'']), (''order'', PStr ''desc'')])],
      Inr (PDict [(''data'', PDict [(''items'', PList [PInt 7, PInt 6, PInt 5]),
                                    (''totalItems'', PInt 10)]), (''error'', PInt 0)]))"
proof -
  let ?kw = "[(''offset'', PInt 2), (''limit'', PInt 3),
      (''sort'', PDict [(''fields'', PList [PStr ''id'']), (''order'', PStr ''desc'')])]"
  let ?rs = "[PDict [(''data'', PDict [(''items'', PList [PInt 0, PInt 1, PInt 2, PInt 3, PInt 4]),
                               (''totalItems'', PInt 5)]), (''error'', PInt 0)],
      PDict [(''data'', PDict [(''items'', PList [PInt 5, PInt 6, PInt 7, PInt 8, PInt 9]),
                               (''totalItems'', PInt 5)]), (''error'', PInt 0)]]"
  let ?xs = "[PInt 0, PInt 1, PInt 2, PInt 3, PInt 4, PInt 5, PInt 6, PInt 7, PInt 8, PInt 9]"
  have loop: "merge_all example_env ?kw ?rs (PDict [])
      = (?kw, Inr (PDict [(''data'', PDict [(''items'', PList ?xs), (''totalItems'', PInt 10)]),
                          (''error'', PInt 0)]))"
    by (simp add: merge_eval)
  have srt: "sort_array example_env ?xs (PList [PStr ''id'']) (PStr ''desc'') = Inr (rev ?xs)"
    by (simp add: example_env_def)
  from post_merge_pagination [where sorted_xs = "rev ?xs" and i = 2 and l = 3, OF loop _ _ _ refl refl]
    srt
  show ?thesis
    by (simp add: default_limit_def default_offset_def)
qed

text \<open>
  C10. When \<open>merge_results\<close> returns a \<open>final_json\<close> whose \<open>data.items\<close> is a list, the
  arguments it leaves are the ones it got with \<open>offset\<close> set to 0 if it was absent and
  \<open>limit\<close> set to \<open>common.database_limit\<close> if it was absent; every other argument is
  as before, and arguments that had both are unchanged.
\<close>

theorem merge_results_writes_defaults:
  assumes "merge_results env kw responses fin0 = (kw', Inr fin)"
    and "data_items fin = Inr (Some xs)"
  shows "kw' = default_limit env (default_offset kw)
       \<and> map_of kw' ''offset'' = Some (case map_of kw ''offset'' of None \<Rightarrow> PInt 0 | Some v \<Rightarrow> v)
       \<and> map_of kw' ''limit'' =
           Some (case map_of kw ''limit'' of None \<Rightarrow> PInt (database_limit env) | Some v \<Rightarrow> v)
       \<and> (\<forall>k. k \<noteq> ''offset'' \<and> k \<noteq> ''limit'' \<longrightarrow> map_of kw' k = map_of kw k)
       \<and> (map_of kw ''offset'' \<noteq> None \<and> map_of kw ''limit'' \<noteq> None \<longrightarrow> kw' = kw)"
proof -
  from assms(1) obtain kw1 fin1 where
    loop: "merge_all env kw responses fin0 = (kw1, Inr fin1)"
    and page: "paginate env kw1 fin1 = (kw', Inr fin)"
    by (auto simp: merge_results_eq split: prod.splits sum.splits)
  from paginate_defaults [OF page assms(2)]
  have "kw' = default_limit env (default_offset kw1)" .
  with merge_all_kw [OF loop] default_idem [of env kw]
  have eq: "kw' = default_limit env (default_offset kw)" by auto
  show ?thesis unfolding eq
    by (auto simp: default_limit_def default_offset_def update_conv' split: option.splits)
qed

text \<open>Without \<open>offset\<close> and \<open>limit\<close> the arguments gain both; with both they stay.\<close>

theorem merge_results_writes_defaults_witness:
  "merge_results example_env []
     [PDict [(''data'', PDict [(''items'', PList [PStr ''001''])]), (''error'', PInt 0)],
      PDict [(''data'', PDict [(''items'', PList [PStr ''002''])]), (''error'', PInt 0)]]
     (PDict [])
   = ([(''offset'', PInt 0), (''limit'', PInt 500)],
      Inr (PDict [(''data'', PDict [(''items'', PList [PStr ''001'', PStr ''002''])]),
                  (''error'', PInt 0)]))
   \<and> [(''offset'', PInt 0), (''limit'', PInt 500)] = default_limit example_env (default_offset [])
   \<and> merge_results example_env [(''offset'', PInt 1), (''limit'', PInt 5)]
     [PDict [(''data'', PDict [(''items'', PList [PStr ''001''])]), (''error'', PInt 0)],
      PDict [(''data'', PDict [(''items'', PList [PStr ''002''])]), (''error'', PInt 0)]]
     (PDict [])
   = ([(''offset'', PInt 1), (''limit'', PInt 5)],
      Inr (PDict [(''data'', PDict [(''items'', PList [PStr ''002''])]), (''error'', PInt 0)]))"
proof -
  let ?rs = "[PDict [(''data'', PDict [(''items'', PList [PStr ''001''])]), (''error'', PInt 0)],
      PDict [(''data'', PDict [(''items'', PList [PStr ''002''])]), (''error'', PInt 0)]]"
  have ev: "merge_results example_env [] ?rs (PDict [])
   = ([(''offset'', PInt 0), (''limit'', PInt 500)],
      Inr (PDict [(''data'', PDict [(''items'', PList [PStr ''001'', PStr ''002''])]),
                  (''error'', PInt 0)]))"
    by (simp add: merge_eval example_env_def)
  have ev2: "merge_results example_env [(''offset'', PInt 1), (''limit'', PInt 5)] ?rs (PDict [])
   = ([(''offset'', PInt 1), (''limit'', PInt 5)],
      Inr (PDict [(''data'', PDict [(''items'', PList [PStr ''002''])]), (''error'', PInt 0)]))"
    by (simp add: merge_eval example_env_def)
  from merge_results_writes_defaults [OF ev] merge_results_writes_defaults [OF ev2] ev ev2
  show ?thesis by (simp add: data_items_def)
qed

section \<open>Solver nodes\<close>











section \<open>Local execution and its deadline\<close>




section \<open>Exceptions and re-entry of the router\<close>

text \<open>
  \<open>distribute_function\<close> is its \<open>try\<close> body under the \<open>except\<close> clauses. A request that came
  from the cluster is never forwarded, so the re-entry leaves the object as it is and
  \<open>forward_request\<close> changes nothing but the arguments and \<open>from_cluster\<close>.
\<close>

lemma distribute_function_try_body:
  "distribute_function (Suc n) env st =
     (case try_body n env st of None \<Rightarrow> None
      | Some (r, st', evs) \<Rightarrow> Some (handle_exceptions env st' r, st', evs))"
  by (simp add: try_body_def handled_def split: sum.splits branch.splits option.splits)

lemma handle_exceptions_no_debug:
  "\<not> debug st \<Longrightarrow> handle_exceptions env st r \<noteq> Raised e"
  by (auto simp: handle_exceptions_def split: outcome.splits exn.splits)

lemma routing_from_cluster: "from_cluster st \<Longrightarrow> routing env st \<noteq> Inr Forward"
  by (auto simp: routing_def split: sum.splits)

lemma routing_Forward:
  "routing env st = Inr Forward \<Longrightarrow>
     request_type st = PStr ''distributed_master'' \<and> node_info_type st = ''master''
     \<and> \<not> from_cluster st"
  by (auto simp: routing_def Let_def split: sum.splits if_splits)

lemma routing_reentry:
  "from_cluster st \<Longrightarrow> request_type st = PStr ''distributed_master'' \<Longrightarrow>
     routing env st = Inr Local \<or> (\<exists>e. routing env st = Inl e)"
  by (auto simp: routing_def split: sum.splits)

lemma reentry_state:
  assumes "from_cluster st" and "distribute_function n env st = Some (r, st', evs)"
  shows "st' = st"
proof (cases n)
  case 0
  with assms(2) show ?thesis by simp
next
  case (Suc m)
  with assms(2) routing_from_cluster [OF assms(1), of env] show ?thesis
    by (auto simp: handled_def split: sum.splits branch.splits)
qed

lemma inject_fields [simp]:
  "from_cluster (inject_agent_id st ids) = from_cluster st"
  "debug (inject_agent_id st ids) = debug st"
  "request_type (inject_agent_id st ids) = request_type st"
  "node_info_node (inject_agent_id st ids) = node_info_node st"
  "node_info_type (inject_agent_id st ids) = node_info_type st"
  by (simp_all add: inject_agent_id_def)

lemma forward_state:
  assumes "from_cluster st" and "forward n env st (name, ids) = Some (r, st', evs)"
  shows "st' = inject_agent_id st ids"
proof (cases "executes_locally (inject_agent_id st ids) name")
  case True
  with assms(2) have "distribute_function n env (inject_agent_id st ids) = Some (r, st', evs)"
    by simp
  with assms(1) show ?thesis by (auto dest: reentry_state [rotated])
next
  case False
  with assms(2) show ?thesis
    by (auto simp: forward_remote_def split: sum.splits)
qed

lemma forward_each_state:
  "from_cluster st \<Longrightarrow> forward_each n env st nodes = Some (rs, st', evs) \<Longrightarrow>
     from_cluster st' \<and> debug st' = debug st"
proof (induction nodes arbitrary: st rs evs)
  case Nil
  then show ?case by simp
next
  case (Cons entry nodes)
  obtain name ids where e: "entry = (name, ids)" by (cases entry)
  from Cons.prems(2) obtain r st1 evs1 rs1 evs2 where
    one: "forward n env st (name, ids) = Some (r, st1, evs1)"
    and rest: "forward_each n env st1 nodes = Some (rs1, st', evs2)"
    unfolding e by (auto split: option.splits)
  from forward_state [OF Cons.prems(1) one] have st1: "st1 = inject_agent_id st ids" .
  with Cons.prems(1) have "from_cluster st1" by simp
  from Cons.IH [OF this rest] st1 show ?case by simp
qed

lemma merge_gathered_state:
  "merge_gathered env (rs, st, evs) = (r, st', evs') \<Longrightarrow>
     debug st' = debug st \<and> evs' = evs"
  by (auto simp: merge_gathered_def split: outcome.splits prod.splits sum.splits)

lemma get_solver_node_fields:
  "debug (fst (get_solver_node env st)) = debug st"
  "request_type (fst (get_solver_node env st)) = request_type st"
  "node_info_node (fst (get_solver_node env st)) = node_info_node st"
  by (auto simp: get_solver_node_def split: option.splits pyval.splits)

lemma forward_request_state:
  assumes "forward_request n env st = Some (r, st', evs)"
  shows "debug st' = debug st"
proof (cases "snd (get_solver_node env st)")
  case (Inl e)
  with assms show ?thesis by (auto simp: get_solver_node_fields)
next
  case (Inr nodes)
  let ?st = "(fst (get_solver_node env st))\<lparr>from_cluster := True\<rparr>"
  have fc: "from_cluster ?st" by simp
  have db: "debug ?st = debug st" by (simp add: get_solver_node_fields)
  show ?thesis
  proof (cases "length nodes > 1")
    case True
    with assms Inr obtain rs st3 evs3 where
      each: "forward_each n env ?st nodes = Some (rs, st3, evs3)"
      and mg: "merge_gathered env (rs, st3, evs3) = (r, st', evs)"
      by (auto split: option.splits)
    from forward_each_state [OF fc each] merge_gathered_state [OF mg] db
    show ?thesis by simp
  next
    case False
    show ?thesis
    proof (cases nodes)
      case Nil
      with assms Inr False db show ?thesis by auto
    next
      case (Cons entry rest)
      obtain name ids where e: "entry = (name, ids)" by (cases entry)
      from assms Inr False Cons e have "forward n env ?st (name, ids) = Some (r, st', evs)"
        by simp
      from forward_state [OF fc this] db show ?thesis by simp
    qed
  qed
qed

lemma try_body_state:
  "try_body n env st = Some (r, st', evs) \<Longrightarrow> debug st' = debug st"
  by (auto simp: try_body_def forward_request_state split: sum.splits branch.splits)

text \<open>
  The \<open>except\<close> clauses of \<open>execute_local_request\<close>, seen through \<open>distribute_function\<close>:
  what the awaited function raises, other than the timeout.
\<close>

lemma local_exceptions:
  assumes "routing env st = Inr Local"
    and "wait_for (run_local env st)
           (if wait_for_complete st then None
            else Some (timeout_api_request (cluster_items st))) = Raised e"
    and "e \<noteq> TimeoutError"
  shows "\<exists>evs. distribute_function (Suc n) env st =
           Some (if debug st then Raised e
                 else Returned (case e of
                        WazuhException code message \<Rightarrow>
                          PDict [(if code \<noteq> 0 then ''message'' else ''data'', PStr message),
                                 (''error'', PInt code)]
                      | _ \<Rightarrow> PDict [(''message'', PStr (exn_str env e)),
                                    (''error'', PInt 1000)]),
                 st, evs)"
  using assms
  by (cases e)
    (auto simp: handled_def handle_exceptions_def execute_local_request_def Let_def
      print_json_def)

text \<open>
  C1. With debug off, \<open>distribute_function\<close> never raises, whatever the bound on the
  re-entry. Whenever its \<open>try\<close> body ends (\<open>try_body\<close>), \<open>distribute_function\<close> ends with
  the same object and events, and: with debug off a \<open>WazuhException\<close> becomes the
  envelope with its code as \<open>error\<close> and its message under \<open>message\<close> (\<open>print_json\<close>
  keys the payload by the code: \<open>message\<close> for every code but 0, the success code, for
  which it is \<open>data\<close>), any other exception becomes the envelope with \<open>error\<close> 1000 and
  \<open>str(e)\<close> under \<open>message\<close>; with debug on the exception is raised as it is; a body
  that does not raise gives its own result. The same holds for what the target function
  raises in a local execution, which \<open>execute_local_request\<close> converts itself (its
  timeout apart, which becomes the code 3021).
\<close>

theorem distribute_function_exceptions:
  "(\<forall>fuel r' st' evs e. \<not> debug st \<and> distribute_function fuel env st = Some (r', st', evs)
        \<longrightarrow> r' \<noteq> Raised e)
   \<and> (\<forall>n r st' evs. try_body n env st = Some (r, st', evs) \<longrightarrow>
        (\<exists>r'. distribute_function (Suc n) env st = Some (r', st', evs)
           \<and> (\<forall>code message. \<not> debug st \<and> r = Raised (WazuhException code message) \<longrightarrow>
                 r' = Returned (PDict [(if code \<noteq> 0 then ''message'' else ''data'', PStr message),
                                       (''error'', PInt code)]))
           \<and> (\<forall>e. \<not> debug st \<and> r = Raised e
                    \<and> (\<forall>code message. e \<noteq> WazuhException code message) \<longrightarrow>
                 r' = Returned (PDict [(''message'', PStr (exn_str env e)),
                                       (''error'', PInt 1000)]))
           \<and> (\<forall>e. debug st \<and> r = Raised e \<longrightarrow> r' = Raised e)
           \<and> ((\<forall>e. r \<noteq> Raised e) \<longrightarrow> r' = r)))
   \<and> (\<forall>n e. routing env st = Inr Local
          \<and> wait_for (run_local env st)
                (if wait_for_complete st then None
                 else Some (timeout_api_request (cluster_items st))) = Raised e
          \<and> e \<noteq> TimeoutError \<longrightarrow>
        (\<exists>evs. distribute_function (Suc n) env st =
           Some (if debug st then Raised e
                 else Returned (case e of
                        WazuhException code message \<Rightarrow>
                          PDict [(if code \<noteq> 0 then ''message'' else ''data'', PStr message),
                                 (''error'', PInt code)]
                      | _ \<Rightarrow> PDict [(''message'', PStr (exn_str env e)),
                                    (''error'', PInt 1000)]),
                 st, evs)))"
proof (intro conjI allI impI)
  fix fuel r' st' evs e
  assume a: "\<not> debug st \<and> distribute_function fuel env st = Some (r', st', evs)"
  show "r' \<noteq> Raised e"
  proof (cases fuel)
    case 0
    with a show ?thesis by simp
  next
    case (Suc n)
    with a obtain r where tb: "try_body n env st = Some (r, st', evs)"
      and r': "r' = handle_exceptions env st' r"
      by (auto simp: distribute_function_try_body simp del: distribute_function.simps
          split: option.splits)
    from try_body_state [OF tb] a have "\<not> debug st'" by simp
    with r' show ?thesis by (simp add: handle_exceptions_no_debug)
  qed
next
  fix n r st' evs
  assume tb: "try_body n env st = Some (r, st', evs)"
  from try_body_state [OF tb] have db: "debug st' = debug st" .
  have "distribute_function (Suc n) env st = Some (handle_exceptions env st' r, st', evs)"
    using tb by (simp add: distribute_function_try_body del: distribute_function.simps)
  then show "\<exists>r'. distribute_function (Suc n) env st = Some (r', st', evs)
           \<and> (\<forall>code message. \<not> debug st \<and> r = Raised (WazuhException code message) \<longrightarrow>
                 r' = Returned (PDict [(if code \<noteq> 0 then ''message'' else ''data'', PStr message),
                                       (''error'', PInt code)]))
           \<and> (\<forall>e. \<not> debug st \<and> r = Raised e
                    \<and> (\<forall>code message. e \<noteq> WazuhException code message) \<longrightarrow>
                 r' = Returned (PDict [(''message'', PStr (exn_str env e)),
                                       (''error'', PInt 1000)]))
           \<and> (\<forall>e. debug st \<and> r = Raised e \<longrightarrow> r' = Raised e)
           \<and> ((\<forall>e. r \<noteq> Raised e) \<longrightarrow> r' = r)"
    using db
    by (auto simp: handle_exceptions_def print_json_def split: outcome.splits exn.splits)
next
  fix n e
  assume "routing env st = Inr Local
          \<and> wait_for (run_local env st)
                (if wait_for_complete st then None
                 else Some (timeout_api_request (cluster_items st))) = Raised e
          \<and> e \<noteq> TimeoutError"
  then show "\<exists>evs. distribute_function (Suc n) env st =
           Some (if debug st then Raised e
                 else Returned (case e of
                        WazuhException code message \<Rightarrow>
                          PDict [(if code \<noteq> 0 then ''message'' else ''data'', PStr message),
                                 (''error'', PInt code)]
                      | _ \<Rightarrow> PDict [(''message'', PStr (exn_str env e)),
                                    (''error'', PInt 1000)]),
                 st, evs)"
    using local_exceptions [of env st e n] by blast
qed


text \<open>
  A cluster whose configuration cannot be read: a \<open>WazuhException\<close>, another exception,
  and the latter in debug mode.
\<close>

theorem distribute_function_exceptions_witness:
  "distribute_function (Suc 0)
     (example_env\<lparr>get_cluster_items := Inl (WazuhException 3004 ''Error in cluster'')\<rparr>)
     example_dapi
   = Some (Returned (PDict [(''message'', PStr ''Error in cluster''), (''error'', PInt 3004)]),
           example_dapi, [])
   \<and> distribute_function (Suc 0) (example_env\<lparr>get_cluster_items := Inl KeyError\<rparr>) example_dapi
   = Some (Returned (PDict [(''message'', PStr ''failure''), (''error'', PInt 1000)]),
           example_dapi, [])
   \<and> distribute_function (Suc 0) (example_env\<lparr>get_cluster_items := Inl KeyError\<rparr>)
       (example_dapi\<lparr>debug := True\<rparr>)
   = Some (Raised KeyError, example_dapi\<lparr>debug := True\<rparr>, [])
   \<and> (\<exists>evs. distribute_function (Suc 0)
         (example_env\<lparr>call_obj :=
            (\<lambda>r kw. Raises 1 (WazuhException 1701 ''Agent does not exist''))\<rparr>)
         (example_dapi\<lparr>request_type := PStr ''local_any''\<rparr>)
       = Some (Returned (PDict [(''message'', PStr ''Agent does not exist''),
                                (''error'', PInt 1701)]),
               example_dapi\<lparr>request_type := PStr ''local_any''\<rparr>, evs))"
proof -
  let ?env3 = "example_env\<lparr>call_obj :=
            (\<lambda>r kw. Raises 1 (WazuhException 1701 ''Agent does not exist''))\<rparr>"
  let ?loc = "example_dapi\<lparr>request_type := PStr ''local_any''\<rparr>"
  have tb4: "routing ?env3 ?loc = Inr Local
          \<and> wait_for (run_local ?env3 ?loc)
                (if wait_for_complete ?loc then None
                 else Some (timeout_api_request (cluster_items ?loc)))
              = Raised (WazuhException 1701 ''Agent does not exist'')
          \<and> WazuhException 1701 ''Agent does not exist'' \<noteq> TimeoutError"
    by (simp add: routing_def run_local_def wait_for_def example_env_def example_dapi_def
        example_items_def)
  have l: "\<exists>evs. distribute_function (Suc 0) ?env3 ?loc
       = Some (Returned (PDict [(''message'', PStr ''Agent does not exist''),
                                (''error'', PInt 1701)]), ?loc, evs)"
    using distribute_function_exceptions [of ?loc ?env3, THEN conjunct2, THEN conjunct2,
        THEN spec, THEN spec, THEN mp, OF tb4]
    by (simp add: example_dapi_def del: distribute_function.simps)
  let ?env1 = "example_env\<lparr>get_cluster_items := Inl (WazuhException 3004 ''Error in cluster'')\<rparr>"
  let ?env2 = "example_env\<lparr>get_cluster_items := Inl KeyError\<rparr>"
  let ?dbg = "example_dapi\<lparr>debug := True\<rparr>"
  have tb1: "try_body 0 ?env1 example_dapi
      = Some (Raised (WazuhException 3004 ''Error in cluster''), example_dapi, [])"
    by (simp add: try_body_def routing_def example_env_def)
  have tb2: "try_body 0 ?env2 example_dapi = Some (Raised KeyError, example_dapi, [])"
    by (simp add: try_body_def routing_def example_env_def)
  have tb3: "try_body 0 ?env2 ?dbg = Some (Raised KeyError, ?dbg, [])"
    by (simp add: try_body_def routing_def example_env_def)
  have nd: "\<not> debug example_dapi" and d: "debug ?dbg" by (simp_all add: example_dapi_def)
  have s: "exn_str ?env2 KeyError = ''failure''" by (simp add: example_env_def)
  from distribute_function_exceptions [of example_dapi ?env1, THEN conjunct2, THEN conjunct1,
      THEN spec, THEN spec, THEN spec, THEN spec, THEN mp, OF tb1] nd
  have a: "distribute_function (Suc 0) ?env1 example_dapi
   = Some (Returned (PDict [(''message'', PStr ''Error in cluster''), (''error'', PInt 3004)]),
           example_dapi, [])"
    by (auto simp del: distribute_function.simps)
  from distribute_function_exceptions [of example_dapi ?env2, THEN conjunct2, THEN conjunct1,
      THEN spec, THEN spec, THEN spec, THEN spec, THEN mp, OF tb2] nd s
  have b: "distribute_function (Suc 0) ?env2 example_dapi
   = Some (Returned (PDict [(''message'', PStr ''failure''), (''error'', PInt 1000)]),
           example_dapi, [])"
    by (auto simp del: distribute_function.simps)
  from distribute_function_exceptions [of ?dbg ?env2, THEN conjunct2, THEN conjunct1,
      THEN spec, THEN spec, THEN spec, THEN spec, THEN mp, OF tb3] d
  have c: "distribute_function (Suc 0) ?env2 ?dbg = Some (Raised KeyError, ?dbg, [])"
    by (auto simp del: distribute_function.simps)
  show ?thesis by (intro conjI a b c l)
qed

text \<open>
  With \<open>from_cluster\<close> set on a \<open>distributed_master\<close> request every sub-call returns; it
  sends a message only to a node that is not run locally.
\<close>

lemma local_events:
  "Execute c cmd p w \<notin> set (snd (execute_local_request env st))"
  by (auto simp: execute_local_request_def Let_def split: outcome.splits exn.splits)

lemma reentry_local:
  assumes "from_cluster st" and "request_type st = PStr ''distributed_master''"
  shows "\<exists>r evs. distribute_function (Suc n) env st = Some (r, st, evs)
           \<and> (\<forall>c cmd p w. Execute c cmd p w \<notin> set evs)"
  using routing_reentry [OF assms, of env]
  by (auto simp: handled_def local_events)

lemma forward_total:
  assumes "from_cluster st" and "request_type st = PStr ''distributed_master''"
  shows "\<exists>r evs. forward (Suc n) env st (name, ids) = Some (r, inject_agent_id st ids, evs)
           \<and> (\<forall>c cmd tgt data w. Execute c cmd (tgt, data) w \<in> set evs \<longrightarrow>
                 cmd = ''dapi_forward'' \<and> tgt = Some name
                 \<and> \<not> executes_locally (inject_agent_id st ids) name)"
proof (cases "executes_locally (inject_agent_id st ids) name")
  case True
  from assms have "from_cluster (inject_agent_id st ids)"
    "request_type (inject_agent_id st ids) = PStr ''distributed_master''" by simp_all
  from reentry_local [OF this, of n env] True show ?thesis
    by (auto simp del: distribute_function.simps)
next
  case False
  then show ?thesis
    by (auto simp: forward_remote_def split: sum.splits)
qed

lemma executes_locally_inject [simp]:
  "executes_locally (inject_agent_id st ids) name = executes_locally st name"
  by (simp add: executes_locally_def)

lemma forward_each_total:
  "from_cluster st \<Longrightarrow> request_type st = PStr ''distributed_master'' \<Longrightarrow>
     \<exists>rs st' evs. forward_each (Suc n) env st nodes = Some (rs, st', evs)
        \<and> (\<forall>c cmd tgt data w. Execute c cmd (tgt, data) w \<in> set evs \<longrightarrow>
              cmd = ''dapi_forward'' \<and> (\<exists>name. tgt = Some name \<and> \<not> executes_locally st name))"
proof (induction nodes arbitrary: st)
  case Nil
  then show ?case by simp
next
  case (Cons entry nodes)
  obtain name ids where e: "entry = (name, ids)" by (cases entry)
  from forward_total [OF Cons.prems, of n env name ids] obtain r evs1 where
    one: "forward (Suc n) env st (name, ids) = Some (r, inject_agent_id st ids, evs1)"
    and ev1: "\<forall>c cmd tgt data w. Execute c cmd (tgt, data) w \<in> set evs1 \<longrightarrow>
                 cmd = ''dapi_forward'' \<and> tgt = Some name \<and> \<not> executes_locally st name"
    by auto
  from Cons.prems have "from_cluster (inject_agent_id st ids)"
    "request_type (inject_agent_id st ids) = PStr ''distributed_master''" by simp_all
  from Cons.IH [OF this] obtain rs st' evs2 where
    rest: "forward_each (Suc n) env (inject_agent_id st ids) nodes = Some (rs, st', evs2)"
    and ev2: "\<forall>c cmd tgt data w. Execute c cmd (tgt, data) w \<in> set evs2 \<longrightarrow>
              cmd = ''dapi_forward'' \<and> (\<exists>name. tgt = Some name \<and> \<not> executes_locally st name)"
    by auto
  from one rest have "forward_each (Suc n) env st (entry # nodes) = Some (r # rs, st', evs1 @ evs2)"
    by (simp add: e del: forward.simps)
  moreover from ev1 ev2 have "\<forall>c cmd tgt data w. Execute c cmd (tgt, data) w \<in> set (evs1 @ evs2) \<longrightarrow>
              cmd = ''dapi_forward'' \<and> (\<exists>name. tgt = Some name \<and> \<not> executes_locally st name)"
    unfolding set_append Un_iff by blast
  ultimately show ?case by blast
qed

lemma executes_locally_solver [simp]:
  "executes_locally ((fst (get_solver_node env st))\<lparr>from_cluster := True\<rparr>) name
     = executes_locally st name"
  by (simp add: executes_locally_def get_solver_node_fields)

lemma forward_request_total:
  assumes "request_type st = PStr ''distributed_master''"
  shows "\<exists>r st' evs. forward_request (Suc n) env st = Some (r, st', evs)
        \<and> (\<forall>c cmd tgt data w. Execute c cmd (tgt, data) w \<in> set evs \<longrightarrow>
              cmd = ''dapi_forward'' \<and> (\<exists>name. tgt = Some name \<and> \<not> executes_locally st name))"
proof (cases "snd (get_solver_node env st)")
  case (Inl e)
  then show ?thesis by simp
next
  case (Inr nodes)
  let ?st = "(fst (get_solver_node env st))\<lparr>from_cluster := True\<rparr>"
  have fc: "from_cluster ?st" by simp
  have rt: "request_type ?st = PStr ''distributed_master''"
    using assms by (simp add: get_solver_node_fields)
  show ?thesis
  proof (cases "length nodes > 1")
    case True
    from forward_each_total [OF fc rt, of n env nodes] obtain rs st' evs where
      each: "forward_each (Suc n) env ?st nodes = Some (rs, st', evs)"
      and ev: "\<forall>c cmd tgt data w. Execute c cmd (tgt, data) w \<in> set evs \<longrightarrow>
              cmd = ''dapi_forward'' \<and> (\<exists>name. tgt = Some name \<and> \<not> executes_locally st name)"
      by auto
    obtain r st'' evs' where mg: "merge_gathered env (rs, st', evs) = (r, st'', evs')"
      by (cases "merge_gathered env (rs, st', evs)")
    from merge_gathered_state [OF mg] have "evs' = evs" by simp
    with each mg ev Inr True show ?thesis
      by (simp del: forward_each.simps)
  next
    case False
    show ?thesis
    proof (cases nodes)
      case Nil
      with Inr False show ?thesis by simp
    next
      case (Cons entry rest)
      obtain name ids where e: "entry = (name, ids)" by (cases entry)
      from forward_total [OF fc rt, of n env name ids] obtain r evs where
        one: "forward (Suc n) env ?st (name, ids) = Some (r, inject_agent_id ?st ids, evs)"
        and ev: "\<forall>c cmd tgt data w. Execute c cmd (tgt, data) w \<in> set evs \<longrightarrow>
                 cmd = ''dapi_forward'' \<and> tgt = Some name \<and> \<not> executes_locally st name"
        by auto
      from one Inr False Cons e have "forward_request (Suc n) env st
          = Some (r, inject_agent_id ?st ids, evs)"
        by (simp del: forward.simps)
      with ev show ?thesis by blast
    qed
  qed
qed

text \<open>
  C9. \<open>forward_request\<close> sets \<open>from_cluster\<close> before any sub-call, and its request type is
  \<open>distributed_master\<close>. In that state a sub-call for a node named \<open>unknown\<close>, empty, or
  as this node is the re-entry of \<open>distribute_function\<close>; its routing decision is the
  local branch (or one of the two reads of the cluster state raises, which they do not
  when they let some request be forwarded), never a forward or a remote execution; it
  returns and sends nothing over a peer channel. For every
  object, \<open>distribute_function\<close> returns with a bound of two on the re-entry, so the
  recursion does not loop; and when it forwards, every message it sends is a
  \<open>dapi_forward\<close> to a node that is not \<open>unknown\<close>, not empty and not this node.
\<close>

theorem forward_to_self_runs_locally:
  assumes "from_cluster st" and "request_type st = PStr ''distributed_master''"
    and "node_name = PStr ''unknown'' \<or> node_name = PStr []
         \<or> node_name = PStr (node_info_node st)"
  shows "forward (Suc n) env st (node_name, agent_id)
           = distribute_function (Suc n) env (inject_agent_id st agent_id)
       \<and> (routing env (inject_agent_id st agent_id) = Inr Local
            \<or> (\<exists>e. routing env (inject_agent_id st agent_id) = Inl e))
       \<and> (\<forall>st0. routing env st0 = Inr Forward \<longrightarrow>
              routing env (inject_agent_id st agent_id) = Inr Local)
       \<and> (\<exists>r evs. forward (Suc n) env st (node_name, agent_id)
                     = Some (r, inject_agent_id st agent_id, evs)
             \<and> (\<forall>c cmd p w. Execute c cmd p w \<notin> set evs))
       \<and> (\<forall>st0. \<exists>r st' evs. distribute_function (Suc (Suc n)) env st0 = Some (r, st', evs)
             \<and> (routing env st0 = Inr Forward \<longrightarrow>
                  (\<forall>c cmd tgt data w. Execute c cmd (tgt, data) w \<in> set evs \<longrightarrow>
                     cmd = ''dapi_forward''
                     \<and> (\<exists>name. tgt = Some name \<and> name \<noteq> PStr ''unknown'' \<and> name \<noteq> PStr []
                           \<and> name \<noteq> PStr (node_info_node st0)))))"
proof (intro conjI allI impI)
  have loc: "executes_locally (inject_agent_id st agent_id) node_name"
    using assms(3) by (simp add: executes_locally_def)
  then show "forward (Suc n) env st (node_name, agent_id)
           = distribute_function (Suc n) env (inject_agent_id st agent_id)"
    by (simp del: distribute_function.simps)
  from assms have fc: "from_cluster (inject_agent_id st agent_id)"
    and rt: "request_type (inject_agent_id st agent_id) = PStr ''distributed_master''"
    by simp_all
  from routing_reentry [OF fc rt]
  show "routing env (inject_agent_id st agent_id) = Inr Local
            \<or> (\<exists>e. routing env (inject_agent_id st agent_id) = Inl e)" .
  show "routing env (inject_agent_id st agent_id) = Inr Local"
    if "routing env st0 = Inr Forward" for st0
    using that fc rt by (auto simp: routing_def Let_def split: sum.splits if_splits)
  from forward_total [OF assms(1,2), of n env node_name agent_id] loc
  show "\<exists>r evs. forward (Suc n) env st (node_name, agent_id)
                     = Some (r, inject_agent_id st agent_id, evs)
             \<and> (\<forall>c cmd p w. Execute c cmd p w \<notin> set evs)"
    by (auto simp del: forward.simps) 
next
  fix st0
  show "\<exists>r st' evs. distribute_function (Suc (Suc n)) env st0 = Some (r, st', evs)
             \<and> (routing env st0 = Inr Forward \<longrightarrow>
                  (\<forall>c cmd tgt data w. Execute c cmd (tgt, data) w \<in> set evs \<longrightarrow>
                     cmd = ''dapi_forward''
                     \<and> (\<exists>name. tgt = Some name \<and> name \<noteq> PStr ''unknown'' \<and> name \<noteq> PStr []
                           \<and> name \<noteq> PStr (node_info_node st0))))"
  proof (cases "routing env st0 = Inr Forward")
    case True
    from routing_Forward [OF True] have rt: "request_type st0 = PStr ''distributed_master''"
      by simp
    from forward_request_total [OF rt, of n env] obtain r st' evs where
      fr: "forward_request (Suc n) env st0 = Some (r, st', evs)"
      and ev: "\<forall>c cmd tgt data w. Execute c cmd (tgt, data) w \<in> set evs \<longrightarrow>
              cmd = ''dapi_forward'' \<and> (\<exists>name. tgt = Some name \<and> \<not> executes_locally st0 name)"
      by blast
    from True fr have "distribute_function (Suc (Suc n)) env st0
        = Some (handle_exceptions env st' r, st', evs)"
      by (simp add: handled_def del: forward_request.simps)
    with ev show ?thesis by (auto simp: executes_locally_def)
  next
    case False
    then show ?thesis
      by (auto simp: handled_def split: sum.splits branch.splits)
  qed
qed

text \<open>The definitions that evaluate the router on a given cluster.\<close>

lemmas router_eval = routing_def handled_def handle_exceptions_def execute_local_request_def
  run_local_def wait_for_def print_json_def inject_agent_id_def executes_locally_def
  forward_remote_def to_dict_def encoder_default_def attr_entry_def merge_gathered_def
  get_solver_node_def dict_of_def set_difference_def py_in_list_def

text \<open>
  On the master \<open>masterX\<close> with ids 1, 2 and 3: the sub-call for \<open>masterX\<close> runs the
  function here, and the whole request sends one message to \<open>nodeA\<close> and one to \<open>nodeB\<close>.
\<close>

theorem forward_to_self_runs_locally_witness:
  "forward (Suc 0) example_env (example_dapi\<lparr>from_cluster := True\<rparr>) (PStr ''masterX'', [PInt 3])
     = distribute_function (Suc 0) example_env
         (inject_agent_id (example_dapi\<lparr>from_cluster := True\<rparr>) [PInt 3])
   \<and> routing example_env (inject_agent_id (example_dapi\<lparr>from_cluster := True\<rparr>) [PInt 3])
     = Inr Local
   \<and> forward (Suc 0) example_env (example_dapi\<lparr>from_cluster := True\<rparr>) (PStr ''masterX'', [PInt 3])
     = Some (Returned (PDict [(''message'', PStr ''Timeout executing API request''),
                              (''error'', PInt 3021)]),
             example_dapi\<lparr>f_kwargs := [(''agent_id'', PList [PInt 3])], from_cluster := True\<rparr>,
             [Call (PObj 0) [(''agent_id'', PList [PInt 3])]])
   \<and> map_option (\<lambda>(r, st', evs).
          map (\<lambda>ev. case ev of Execute c cmd p w \<Rightarrow> Some (cmd, fst p) | _ \<Rightarrow> None) evs)
        (distribute_function (Suc (Suc 0)) example_env example_dapi)
     = Some [Some (''dapi_forward'', Some (PStr ''nodeA'')),
             Some (''dapi_forward'', Some (PStr ''nodeB'')), None]"
proof -
  let ?st = "example_dapi\<lparr>from_cluster := True\<rparr>"
  have h1: "from_cluster ?st" by simp
  have h2: "request_type ?st = PStr ''distributed_master''" by (simp add: example_dapi_def)
  have h3: "PStr ''masterX'' = PStr ''unknown'' \<or> PStr ''masterX'' = PStr []
         \<or> PStr ''masterX'' = PStr (node_info_node ?st)" by (simp add: example_dapi_def)
  have a: "forward (Suc 0) example_env ?st (PStr ''masterX'', [PInt 3])
     = distribute_function (Suc 0) example_env (inject_agent_id ?st [PInt 3])"
    by (rule forward_to_self_runs_locally [OF h1 h2 h3, THEN conjunct1])
  have b: "routing example_env (inject_agent_id ?st [PInt 3]) = Inr Local"
    by (simp add: router_eval example_env_def example_dapi_def example_items_def)
  have c: "forward (Suc 0) example_env ?st (PStr ''masterX'', [PInt 3])
     = Some (Returned (PDict [(''message'', PStr ''Timeout executing API request''),
                              (''error'', PInt 3021)]),
             example_dapi\<lparr>f_kwargs := [(''agent_id'', PList [PInt 3])], from_cluster := True\<rparr>,
             [Call (PObj 0) [(''agent_id'', PList [PInt 3])]])"
    by (simp add: router_eval example_env_def example_dapi_def example_items_def)
  have d: "map_option (\<lambda>(r, st', evs).
          map (\<lambda>ev. case ev of Execute c cmd p w \<Rightarrow> Some (cmd, fst p) | _ \<Rightarrow> None) evs)
        (distribute_function (Suc (Suc 0)) example_env example_dapi)
     = Some [Some (''dapi_forward'', Some (PStr ''nodeA'')),
             Some (''dapi_forward'', Some (PStr ''nodeB'')), None]"
    by (simp add: router_eval merge_eval example_env_def example_dapi_def example_items_def
        Let_def)
  show ?thesis by (intro conjI a b c d)
qed

section \<open>The queue consumer\<close>

text \<open>
  A callable encoded without \<open>__name__\<close> is not decoded: the \<open>KeyError\<close> becomes the
  \<open>TypeError\<close> of \<open>as_callable\<close>. A module that cannot be imported is not covered by the
  \<open>except\<close> clause: the exception of \<open>import_module\<close> passes as it is.
\<close>

lemma as_callable_missing_name:
  "as_callable env [(''__callable__'', PDict [])] = Inl TypeError"
  by (simp add: as_callable_def resolve_callable_def)

lemma as_callable_missing_module:
  assumes "import_module env (PStr m) = Inl ModuleNotFoundError"
  shows "as_callable env [(''__callable__'',
           PDict [(''__name__'', PStr a), (''__qualname__'', PStr a), (''__module__'', PStr m)])]
         = Inl ModuleNotFoundError"
  using assms by (simp add: as_callable_def resolve_callable_def Let_def)

text \<open>
  A request that cannot be decoded ends \<open>run\<close>, whatever is queued behind it: nothing is
  sent or logged for it, and the later requests are not taken from the queue.
\<close>

lemma run_ends_at_decode_error:
  assumes "split_once (CHR '' '') item = [names, request]"
    and "hd (split_once (CHR ''*'') names) = ''None''"
    and "loads_request env request = Inl e"
  shows "run fuel env (item # request_queue) = ([], Crashed e)"
  using assms by (simp add: run_once_def Let_def)

text \<open>
  C3, on the code. The request \<open>good\<close> alone is answered and the consumer waits for the
  next one. Behind the request \<open>bad\<close>, whose decoding raises \<open>TypeError\<close>, it is never
  processed: \<open>run\<close> has ended with that exception, with nothing logged.
\<close>

theorem run_ends_at_malformed_request:
  "loads_request example_queue_env ''bad'' = Inl TypeError
   \<and> run (Suc (Suc 0)) example_queue_env [''None good'']
     = ([Call (PObj 2) [],
         SendString ServerClient (PDict [(''data'', PStr ''done''), (''error'', PInt 0)]),
         SendRequest ServerClient ''dapi_res'' ''task 1'' ''dapi_err''], Waiting)
   \<and> run (Suc (Suc 0)) example_queue_env [''None bad'', ''None good'']
     = ([], Crashed TypeError)"
  by (simp add: router_eval run_once_def split_once_def loads_request_def as_callable_def
      resolve_callable_def py_getattr_def new_dapi_def init_params_def flag_def reply_def
      example_queue_env_def example_env_def example_items_def Let_def)


end
